theory Spec2Isabelle
  imports Complex_Main
begin

section \<open>Python values used by the script\<close>

text \<open>
  Exceptions are values. Every class below derives from Python's \<open>Exception\<close>, so an
  \<open>except Exception\<close> handler catches each of them; \<open>except json.JSONDecodeError\<close>
  catches the first one only.
\<close>

datatype exn =
    JSONDecodeError
  | UnicodeDecodeError
  | AttributeError
  | TypeError
  | CsvError
  | TimeoutException
  | NoSuchElementException
  | WebDriverException string

fun repr :: "exn \<Rightarrow> string" where
  "repr JSONDecodeError = ''JSONDecodeError()''"
| "repr UnicodeDecodeError = ''UnicodeDecodeError()''"
| "repr AttributeError = ''AttributeError()''"
| "repr TypeError = ''TypeError()''"
| "repr CsvError = ''Error()''"
| "repr TimeoutException = ''TimeoutException()''"
| "repr NoSuchElementException = ''NoSuchElementException()''"
| "repr (WebDriverException m) = ''WebDriverException('' @ m @ '')''"

text \<open>
  Strings are lists of characters; a character stands for a code point below 256.
  \<open>str.strip()\<close> removes the white space of that range from both ends,
  \<open>str.lstrip(chars)\<close> removes every leading character that occurs in \<open>chars\<close>, and
  \<open>str.lower()\<close> maps the capital letters of that range to their small forms.
\<close>

definition is_space :: "char \<Rightarrow> bool" where
  "is_space c = ((of_char c :: nat) \<in> {9, 10, 11, 12, 13, 28, 29, 30, 31, 32, 133, 160})"

definition py_strip :: "string \<Rightarrow> string" where
  "py_strip s = rev (dropWhile is_space (rev (dropWhile is_space s)))"

definition py_lstrip :: "string \<Rightarrow> string \<Rightarrow> string" where
  "py_lstrip chars s = dropWhile (\<lambda>c. c \<in> set chars) s"

definition lower_char :: "char \<Rightarrow> char" where
  "lower_char c =
     (let n = (of_char c :: nat) in
      if 65 \<le> n \<and> n \<le> 90 then char_of (n + 32)
      else if 192 \<le> n \<and> n \<le> 222 \<and> n \<noteq> 215 then char_of (n + 32)
      else c)"

definition py_lower :: "string \<Rightarrow> string" where
  "py_lower s = map lower_char s"

text \<open>
  \<open>xs[i:]\<close>: a negative start counts from the end, and a start before the first element
  gives the whole list.
\<close>

definition slice_from :: "int \<Rightarrow> 'a list \<Rightarrow> 'a list" where
  "slice_from i xs =
     (if i < 0 then drop (nat (int (length xs) + i)) xs else drop (nat i) xs)"


section \<open>The input resolver: \<open>read_usernames\<close>\<close>

text \<open>
  A path as \<open>read_usernames\<close> sees it: whether the file exists, its suffix, and the lines
  that iterating over the open file yields. Sniffing the dialect and reading the rows of a
  delimited file is the work of Python's \<open>csv\<close> module; it is a parameter
  \<open>csv_reader\<close>, from the lines to the rows, and it may raise.
\<close>

record path =
  p_exists :: bool
  p_suffix :: string
  p_lines :: "string list"

fun csv_entries :: "string list list \<Rightarrow> string list" where
  "csv_entries [] = []"
| "csv_entries (row # rows) =
     (case row of
        [] \<Rightarrow> csv_entries rows
      | cell # _ \<Rightarrow> py_lstrip ''@'' (py_strip cell) # csv_entries rows)"

fun txt_entries :: "string list \<Rightarrow> string list" where
  "txt_entries [] = []"
| "txt_entries (line # rest) =
     (let line' = py_strip line in
      if line' \<noteq> [] then py_lstrip ''@'' line' # txt_entries rest
      else txt_entries rest)"

text \<open>The loop \<open>for u in out\<close> with its two accumulators \<open>seen\<close> and \<open>uniq\<close>.\<close>

fun dedup_loop :: "string list \<Rightarrow> string set \<Rightarrow> string list \<Rightarrow> string list" where
  "dedup_loop [] seen uniq = uniq"
| "dedup_loop (u # out) seen uniq =
     (if u \<noteq> [] \<and> u \<notin> seen then dedup_loop out (insert u seen) (uniq @ [u])
      else dedup_loop out seen uniq)"

definition read_usernames ::
  "(string list \<Rightarrow> exn + string list list) \<Rightarrow> path \<Rightarrow> exn + string list" where
  "read_usernames csv_reader p =
     (if \<not> p_exists p then Inr []
      else if py_lower (p_suffix p) \<in> {''.csv'', ''.tsv''} then
        (case csv_reader (p_lines p) of
           Inl e \<Rightarrow> Inl e
         | Inr rows \<Rightarrow> Inr (dedup_loop (csv_entries rows) {} []))
      else Inr (dedup_loop (txt_entries (p_lines p)) {} []))"

text \<open>
  The entries of a file before deduplication, and the normalisation the code applies to
  each of them: trim, then remove every leading \<open>@\<close>.
\<close>

definition normalise :: "string \<Rightarrow> string" where
  "normalise s = py_lstrip ''@'' (py_strip s)"

text \<open>
  The specification's reading of the normalisation, for comparison: at most one leading
  \<open>@\<close> is removed from the trimmed entry.
\<close>

definition spec_normalise :: "string \<Rightarrow> string" where
  "spec_normalise s =
     (case py_strip s of [] \<Rightarrow> [] | c # r \<Rightarrow> if c = CHR ''@'' then r else c # r)"

text \<open>A stand-in for the \<open>csv\<close> module on files that are not delimited files.\<close>

definition no_csv :: "string list \<Rightarrow> exn + string list list" where
  "no_csv ls = Inl CsvError"

definition example_list :: path where
  "example_list =
     \<lparr>p_exists = True, p_suffix = ''.txt'',
      p_lines = [''@alice'', ''bob'', ''alice'', '' '', ''carol'']\<rparr>"

definition double_at_list :: path where
  "double_at_list = \<lparr>p_exists = True, p_suffix = ''.txt'', p_lines = [''@@alice'']\<rparr>"


section \<open>The action log: \<open>load_last_followed\<close>\<close>

text \<open>
  The values \<open>json.loads\<close> returns. An object is the list of the items of the Python
  dictionary, in insertion order; \<open>dict_get\<close> is \<open>rec.get(key)\<close>, with \<open>None\<close> of
  HOL for Python's \<open>None\<close> of a missing key. A float is the rational number it denotes.
\<close>

datatype json =
    JNull
  | JBool bool
  | JInt int
  | JFloat rat
  | JStr string
  | JArr "json list"
  | JObj "(string \<times> json) list"

definition dict_get :: "(string \<times> json) list \<Rightarrow> string \<Rightarrow> json option" where
  "dict_get kv k = map_of (rev kv) k"

text \<open>Truth value of \<open>rec.get(key)\<close> in a condition.\<close>

fun py_truthy :: "json option \<Rightarrow> bool" where
  "py_truthy None = False"
| "py_truthy (Some JNull) = False"
| "py_truthy (Some (JBool b)) = b"
| "py_truthy (Some (JInt i)) = (i \<noteq> 0)"
| "py_truthy (Some (JFloat r)) = (r \<noteq> 0)"
| "py_truthy (Some (JStr s)) = (s \<noteq> [])"
| "py_truthy (Some (JArr xs)) = (xs \<noteq> [])"
| "py_truthy (Some (JObj kv)) = (kv \<noteq> [])"

text \<open>
  Keys of a dictionary: lists and dictionaries cannot be hashed, and two keys are the same
  key when Python's \<open>==\<close> holds, which compares booleans and numbers by value.
\<close>

fun hashable :: "json \<Rightarrow> bool" where
  "hashable (JArr xs) = False"
| "hashable (JObj kv) = False"
| "hashable j = True"

fun numeric :: "json \<Rightarrow> rat option" where
  "numeric (JBool b) = Some (if b then 1 else 0)"
| "numeric (JInt i) = Some (of_int i)"
| "numeric (JFloat r) = Some r"
| "numeric j = None"

definition py_eq :: "json \<Rightarrow> json \<Rightarrow> bool" where
  "py_eq a b =
     (case (numeric a, numeric b) of
        (Some x, Some y) \<Rightarrow> x = y
      | (None, None) \<Rightarrow> a = b
      | _ \<Rightarrow> False)"

text \<open>
  \<open>list(dict.fromkeys(followed))\<close>: the keys in the order of their first insertion;
  \<open>TypeError\<close> at the first element that cannot be hashed.
\<close>

fun fromkeys :: "json list \<Rightarrow> json list \<Rightarrow> exn + json list" where
  "fromkeys [] keys = Inr keys"
| "fromkeys (x # xs) keys =
     (if \<not> hashable x then Inl TypeError
      else if \<exists>k \<in> set keys. py_eq k x then fromkeys xs keys
      else fromkeys xs (keys @ [x]))"

text \<open>
  The loop over the lines of the log. \<open>json.loads\<close> is the parameter \<open>json_loads\<close>;
  only its \<open>JSONDecodeError\<close> is caught. \<open>rec.get\<close> exists on a dictionary only: on any
  other value the attribute lookup raises \<open>AttributeError\<close>.
\<close>

fun scan_log :: "(string \<Rightarrow> exn + json) \<Rightarrow> string list \<Rightarrow> json list \<Rightarrow> exn + json list" where
  "scan_log json_loads [] followed = Inr followed"
| "scan_log json_loads (line # rest) followed =
     (case json_loads line of
        Inl e \<Rightarrow>
          if e = JSONDecodeError then scan_log json_loads rest followed else Inl e
      | Inr (JObj kv) \<Rightarrow>
          if dict_get kv ''action'' = Some (JStr ''follow'')
             \<and> dict_get kv ''success'' = Some (JBool True)
             \<and> py_truthy (dict_get kv ''username'')
          then scan_log json_loads rest (followed @ [the (dict_get kv ''username'')])
          else scan_log json_loads rest followed
      | Inr _ \<Rightarrow> Inl AttributeError)"

text \<open>
  The log file is opened for reading as text, with the encoding \<open>utf-8\<close>, the default
  strict error handling and the default newline handling. Its content is the list of its
  bytes. Iterating over the file decodes the bytes, which raises \<open>UnicodeDecodeError\<close>
  when they are not valid UTF-8, and yields the lines, each with its newline, where
  \<open>\r\n\<close> and \<open>\r\<close> are read as \<open>\n\<close>. The text of a log that decodes is kept in its
  UTF-8 encoding, which for ASCII text is the text itself.

  The reader decodes the file chunk by chunk and the model decodes the content at once. A
  content with an undecodable byte makes the read raise in both; when a line before that
  byte raises as well, the exception that ends the read of the program may be that line's.
\<close>

definition continuation :: "char \<Rightarrow> bool" where
  "continuation c = (128 \<le> (of_char c :: nat) \<and> (of_char c :: nat) \<le> 191)"

text \<open>The second byte of a sequence of three or four bytes that starts with byte \<open>n\<close>:
  no overlong form, no surrogate, nothing above U+10FFFF.\<close>

definition second_byte :: "nat \<Rightarrow> char \<Rightarrow> bool" where
  "second_byte n c =
     (let m = (of_char c :: nat) in
      if n = 224 then 160 \<le> m \<and> m \<le> 191
      else if n = 237 then 128 \<le> m \<and> m \<le> 159
      else if n = 240 then 144 \<le> m \<and> m \<le> 191
      else if n = 244 then 128 \<le> m \<and> m \<le> 143
      else 128 \<le> m \<and> m \<le> 191)"

fun utf8_valid :: "string \<Rightarrow> bool" where
  "utf8_valid [] = True"
| "utf8_valid (b # bs) =
     (let n = (of_char b :: nat) in
      if n < 128 then utf8_valid bs
      else if 194 \<le> n \<and> n \<le> 223 then
        (case bs of
           c1 # r \<Rightarrow> continuation c1 \<and> utf8_valid r
         | _ \<Rightarrow> False)
      else if 224 \<le> n \<and> n \<le> 239 then
        (case bs of
           c1 # c2 # r \<Rightarrow> second_byte n c1 \<and> continuation c2 \<and> utf8_valid r
         | _ \<Rightarrow> False)
      else if 240 \<le> n \<and> n \<le> 244 then
        (case bs of
           c1 # c2 # c3 # r \<Rightarrow>
             second_byte n c1 \<and> continuation c2 \<and> continuation c3 \<and> utf8_valid r
         | _ \<Rightarrow> False)
      else False)"

text \<open>The lines of a text, from the line read so far and the text still to read.\<close>

fun read_lines :: "string \<Rightarrow> string \<Rightarrow> string list" where
  "read_lines line [] = (if line = [] then [] else [line])"
| "read_lines line (c # cs) =
     (if c = CHR 0x0D then
        (case cs of
           c' # cs' \<Rightarrow>
             if c' = CHR 0x0A then (line @ [CHR 0x0A]) # read_lines [] cs'
             else (line @ [CHR 0x0A]) # read_lines [] cs
         | [] \<Rightarrow> (line @ [CHR 0x0A]) # read_lines [] cs)
      else if c = CHR 0x0A then (line @ [CHR 0x0A]) # read_lines [] cs
      else read_lines (line @ [c]) cs)"

text \<open>The \<open>with\<close> block: the list \<open>followed\<close> at its end, or the exception raised.\<close>

definition read_log :: "(string \<Rightarrow> exn + json) \<Rightarrow> string \<Rightarrow> exn + json list" where
  "read_log json_loads content =
     (if \<not> utf8_valid content then Inl UnicodeDecodeError
      else scan_log json_loads (read_lines [] content) [])"

text \<open>
  The log path is \<open>None\<close> when the file does not exist and the content of the file
  otherwise. \<open>limit\<close> is the \<open>Optional[int]\<close> of the source; \<open>if limit:\<close> holds for an
  integer other than zero.
\<close>

definition load_last_followed ::
  "(string \<Rightarrow> exn + json) \<Rightarrow> string option \<Rightarrow> int option \<Rightarrow> exn + json list" where
  "load_last_followed json_loads log_path limit =
     (case log_path of
        None \<Rightarrow> Inr []
      | Some content \<Rightarrow>
          (case read_log json_loads content of
             Inl e \<Rightarrow> Inl e
           | Inr followed \<Rightarrow>
               (case limit of
                  Some n \<Rightarrow>
                    if n \<noteq> 0 then
                      (case fromkeys followed [] of
                         Inl e \<Rightarrow> Inl e
                       | Inr keys \<Rightarrow> Inr (slice_from (- n) keys))
                    else fromkeys followed []
                | None \<Rightarrow> fromkeys followed [])))"

text \<open>
  The "last followed" query in the specification's words: the usernames of the successful
  follow records in log order, each kept at its last occurrence, cut to the most recent
  \<open>n\<close> when a limit is given.
\<close>

definition spec_last_followed :: "string list \<Rightarrow> nat option \<Rightarrow> string list" where
  "spec_last_followed followed limit =
     (case limit of
        None \<Rightarrow> remdups followed
      | Some n \<Rightarrow> drop (length (remdups followed) - n) (remdups followed))"

text \<open>
  Example logs. \<open>follow_line u\<close> is the line \<open>write_jsonl\<close> appends for a successful
  follow of \<open>u\<close>, with its newline, and \<open>follow_obj u\<close> the dictionary \<open>json.loads\<close>
  returns for it. \<open>example_loads\<close> stands in for \<open>json.loads\<close> on the lines of the
  examples: the follow lines of \<open>alice\<close> and \<open>bob\<close> and the line \<open>123\<close>, which is valid
  JSON for a number; it rejects every other line.
\<close>

definition follow_line :: "string \<Rightarrow> string" where
  \<open>follow_line u =
     ''{"username": "'' @ u @ ''", "mode": "follow", "ts": 1700000000, "action": "follow", ''
     @ ''"success": true, "state_before": "follow", "state_after": "following", "error": null}''
     @ [CHR 0x0A]\<close>

definition follow_obj :: "string \<Rightarrow> json" where
  "follow_obj u =
     JObj [(''username'', JStr u), (''mode'', JStr ''follow''), (''ts'', JInt 1700000000),
           (''action'', JStr ''follow''), (''success'', JBool True),
           (''state_before'', JStr ''follow''), (''state_after'', JStr ''following''),
           (''error'', JNull)]"

definition example_loads :: "string \<Rightarrow> exn + json" where
  "example_loads line =
     (if line = follow_line ''alice'' then Inr (follow_obj ''alice'')
      else if line = follow_line ''bob'' then Inr (follow_obj ''bob'')
      else if line = ''123'' @ [CHR 0x0A] then Inr (JInt 123)
      else Inl JSONDecodeError)"

text \<open>The log after \<open>alice\<close> was followed, then \<open>bob\<close>, then \<open>alice\<close> again.\<close>

definition refollow_log :: string where
  "refollow_log = follow_line ''alice'' @ follow_line ''bob'' @ follow_line ''alice''"

text \<open>
  Two logs with a record that was cut short by a crash, after the record of \<open>alice\<close>;
  the next run appended the record of \<open>bob\<close> where the cut record ends. The cut record is
  that of a failed attempt whose error text is \<open>TimeoutException('Zeit\<dots>\<close>, with the
  letter u-umlaut next, which \<open>write_jsonl\<close> writes as the two bytes C3 BC
  (\<open>ensure_ascii=False\<close>). In \<open>cut_log\<close> the record ends before that letter, in
  \<open>torn_log\<close> between its two bytes.
\<close>

definition cut_record :: string where
  \<open>cut_record =
     ''{"username": "carol", "mode": "follow", "ts": 1700000000, "action": null, ''
     @ ''"success": false, "state_before": null, "state_after": null, ''
     @ ''"error": "TimeoutException('Zeit''\<close>

definition cut_log :: string where
  "cut_log = follow_line ''alice'' @ cut_record @ follow_line ''bob''"

definition torn_log :: string where
  "torn_log = follow_line ''alice'' @ cut_record @ [CHR 0xC3] @ follow_line ''bob''"

text \<open>A log with a line that is valid JSON but not a record.\<close>

definition number_log :: string where
  "number_log = follow_line ''alice'' @ ''123'' @ [CHR 0x0A]"


section \<open>The browser\<close>

text \<open>
  The script drives the browser through Selenium. The browser, the site behind it and
  the clock are a state of some type \<open>'d\<close>; every call of the driver takes the state and
  returns the new one, with the value or the exception raised. The calls the script uses
  are the fields of a record, so that a result about every driver holds for the real one
  and for a mock. An element is the handle the driver returned for it.
\<close>

datatype By = NAME | CSS_SELECTOR | XPATH

type_synonym locator = "By \<times> string"

datatype condition =
    presence_of_element_located locator
  | element_to_be_clickable locator

type_synonym element = nat

type_synonym ('d, 'a) io = "'d \<Rightarrow> (exn + 'a) \<times> 'd"

record 'd driver =
  drv_get :: "string \<Rightarrow> ('d, unit) io"
  drv_current_url :: "('d, string) io"
  drv_find_element :: "locator \<Rightarrow> ('d, element) io"
  drv_find_elements :: "locator \<Rightarrow> ('d, element list) io"
  wait_until :: "nat \<Rightarrow> condition \<Rightarrow> ('d, element) io"
  el_click :: "element \<Rightarrow> ('d, unit) io"
  el_clear :: "element \<Rightarrow> ('d, unit) io"
  el_send_keys :: "element \<Rightarrow> string \<Rightarrow> ('d, unit) io"
  el_is_displayed :: "element \<Rightarrow> ('d, bool) io"
  el_text :: "element \<Rightarrow> ('d, string) io"
  time_sleep :: "rat \<Rightarrow> rat \<Rightarrow> 'd \<Rightarrow> 'd"
  time_now :: "'d \<Rightarrow> int"

text \<open>
  Sequencing, and \<open>try: ... except Exception: ...\<close>. An exception ends the sequence and
  keeps the state reached; the handler of \<open>io_try\<close> runs from that state.
\<close>

definition io_return :: "'a \<Rightarrow> ('d, 'a) io" where
  "io_return x d = (Inr x, d)"

definition io_bind :: "('d, 'a) io \<Rightarrow> ('a \<Rightarrow> ('d, 'b) io) \<Rightarrow> ('d, 'b) io" where
  "io_bind m f d = (case m d of (Inl e, d') \<Rightarrow> (Inl e, d') | (Inr x, d') \<Rightarrow> f x d')"

definition io_try :: "('d, 'a) io \<Rightarrow> (exn \<Rightarrow> ('d, 'a) io) \<Rightarrow> ('d, 'a) io" where
  "io_try m handler d = (case m d of (Inl e, d') \<Rightarrow> handler e d' | (Inr x, d') \<Rightarrow> (Inr x, d'))"

text \<open>
  \<open>jitter_sleep\<close> sleeps for a time drawn between its bounds, \<open>backoff_sleep\<close> for the
  capped exponential delay plus a jitter of at most 0.6 seconds. The state after a sleep
  is the driver's to say: \<open>time_sleep lo hi\<close> is a sleep of some duration between \<open>lo\<close>
  and \<open>hi\<close>.
\<close>

definition jitter_sleep :: "'d driver \<Rightarrow> rat \<Rightarrow> rat \<Rightarrow> ('d, unit) io" where
  "jitter_sleep drv min_s max_s d = (Inr (), time_sleep drv min_s max_s d)"

definition backoff_sleep :: "'d driver \<Rightarrow> nat \<Rightarrow> ('d, unit) io" where
  "backoff_sleep drv attempt d =
     (let base = 0.8; cap = 12;
          delay = min cap (base * 2 ^ (attempt - 1))
      in (Inr (), time_sleep drv delay (delay + 0.6) d))"

text \<open>\<open>sub in s\<close> on strings.\<close>

fun contains :: "string \<Rightarrow> string \<Rightarrow> bool" where
  "contains [] sub = (sub = [])"
| "contains (c # s) sub = (take (length sub) (c # s) = sub \<or> contains s sub)"


subsection \<open>\<open>ig_login\<close>\<close>

definition login_url :: string where
  "login_url = ''https://www.instagram.com/accounts/login/''"

text \<open>The test on \<open>driver.current_url\<close>, which reads the property twice.\<close>

definition on_authenticated_page :: "'d driver \<Rightarrow> ('d, bool) io" where
  "on_authenticated_page drv =
     io_bind (drv_current_url drv) (\<lambda>url.
       if contains url ''instagram.com/'' then
         io_bind (drv_current_url drv) (\<lambda>url'. io_return (\<not> contains url' ''/login''))
       else io_return False)"

text \<open>One round of \<open>for text in ["Not now", "Not Now"]\<close>: find the button and click it,
  ignoring any failure.\<close>

definition dismiss :: "'d driver \<Rightarrow> string \<Rightarrow> ('d, unit) io" where
  "dismiss drv text =
     io_try
       (io_bind (drv_find_element drv
            (XPATH, ''//button[normalize-space()='' @ [CHR 0x27] @ text @ [CHR 0x27] @ '']''))
          (\<lambda>btn. el_click drv btn))
       (\<lambda>e. io_return ())"

text \<open>The loop \<open>for attempt in range(1, 6)\<close>, over the attempts still to make.\<close>

primrec login_attempts :: "'d driver \<Rightarrow> nat list \<Rightarrow> ('d, unit) io" where
  "login_attempts drv [] = io_return ()"
| "login_attempts drv (attempt # rest) =
     io_bind (jitter_sleep drv 1.2 2.4) (\<lambda>_.
     io_bind (on_authenticated_page drv) (\<lambda>arrived.
       if arrived then io_return ()
       else
         io_bind (dismiss drv ''Not now'') (\<lambda>_.
         io_bind (dismiss drv ''Not Now'') (\<lambda>_.
         io_bind (backoff_sleep drv attempt) (\<lambda>_.
         login_attempts drv rest)))))"

definition ig_login :: "'d driver \<Rightarrow> string \<Rightarrow> string \<Rightarrow> ('d, unit) io" where
  "ig_login drv username password =
     io_bind (drv_get drv login_url) (\<lambda>_.
     io_bind (io_try
                (io_bind (wait_until drv 30 (presence_of_element_located (NAME, ''username'')))
                   (\<lambda>_. io_return ()))
                (\<lambda>e. io_return ())) (\<lambda>_.
     io_bind (wait_until drv 30 (element_to_be_clickable (NAME, ''username''))) (\<lambda>user_el.
     io_bind (wait_until drv 30 (element_to_be_clickable (NAME, ''password''))) (\<lambda>pass_el.
     io_bind (el_clear drv user_el) (\<lambda>_.
     io_bind (el_send_keys drv user_el username) (\<lambda>_.
     io_bind (jitter_sleep drv 0.4 0.9) (\<lambda>_.
     io_bind (el_clear drv pass_el) (\<lambda>_.
     io_bind (el_send_keys drv pass_el password) (\<lambda>_.
     io_bind (jitter_sleep drv 0.3 0.8) (\<lambda>_.
     io_bind (drv_find_element drv (CSS_SELECTOR, ''button[type='submit']'')) (\<lambda>submit.
     io_bind (el_click drv submit) (\<lambda>_.
     login_attempts drv [1, 2, 3, 4, 5]))))))))))))"


subsection \<open>\<open>open_profile\<close> and \<open>get_follow_state\<close>\<close>

definition open_profile :: "'d driver \<Rightarrow> string \<Rightarrow> ('d, unit) io" where
  "open_profile drv username =
     io_bind (drv_get drv (''https://www.instagram.com/'' @ username @ ''/'')) (\<lambda>_.
     io_bind (wait_until drv 20
                (presence_of_element_located (XPATH, ''//header//h2 | //header//h1''))) (\<lambda>_.
     jitter_sleep drv 1.0 2.0))"

definition follow_xp :: string where
  "follow_xp = ''//header//button[.//div[text()='Follow'] or normalize-space()='Follow']''"

definition following_xp :: string where
  "following_xp =
     ''//header//button[.//div[text()='Following'] or normalize-space()='Following']''"

definition requested_xp :: string where
  "requested_xp =
     ''//header//button[.//div[text()='Requested'] or normalize-space()='Requested']''"

definition any_cta_xp :: string where
  "any_cta_xp =
     ''//header//button[normalize-space()='Follow' or normalize-space()='Following' ''
     @ ''or normalize-space()='Requested']''"

definition candidates :: "string list" where
  "candidates = [follow_xp, following_xp, requested_xp, any_cta_xp]"

text \<open>
  \<open>next((b for b in btns if b.is_displayed()), btns[0])\<close>: the generator asks the
  buttons in order and stops at the first one displayed; the default is the first button.
  The list is not empty where the expression is evaluated.
\<close>

primrec first_displayed :: "'d driver \<Rightarrow> element list \<Rightarrow> ('d, element option) io" where
  "first_displayed drv [] = io_return None"
| "first_displayed drv (b # bs) =
     io_bind (el_is_displayed drv b) (\<lambda>shown.
       if shown then io_return (Some b) else first_displayed drv bs)"

definition choose_button :: "'d driver \<Rightarrow> element list \<Rightarrow> ('d, element) io" where
  "choose_button drv btns =
     io_bind (first_displayed drv btns) (\<lambda>found.
       io_return (case found of Some b \<Rightarrow> b | None \<Rightarrow> hd btns))"

text \<open>
  The body of the \<open>try\<close> for one candidate: \<open>Some\<close> state where the source returns it,
  \<open>None\<close> where it goes on to the next candidate. \<open>probe_candidate\<close> adds the handler
  \<open>except Exception: continue\<close>.
\<close>

definition strategy_body :: "'d driver \<Rightarrow> string \<Rightarrow> ('d, string option) io" where
  "strategy_body drv xp =
     io_bind (drv_find_elements drv (XPATH, xp)) (\<lambda>btns.
       if btns = [] then io_return None
       else
         io_bind (choose_button drv btns) (\<lambda>btn.
         io_bind (el_text drv btn) (\<lambda>text.
           let label = py_strip text in
           if py_lower label = ''follow'' then io_return (Some ''follow'')
           else if py_lower label = ''following'' then io_return (Some ''following'')
           else if py_lower label = ''requested'' then io_return (Some ''requested'')
           else io_return None)))"

definition probe_candidate :: "'d driver \<Rightarrow> string \<Rightarrow> ('d, string option) io" where
  "probe_candidate drv xp = io_try (strategy_body drv xp) (\<lambda>e. io_return None)"

primrec try_candidates :: "'d driver \<Rightarrow> string list \<Rightarrow> ('d, string) io" where
  "try_candidates drv [] = io_return ''unavailable''"
| "try_candidates drv (xp # rest) =
     io_bind (probe_candidate drv xp) (\<lambda>r.
       case r of Some state \<Rightarrow> io_return state | None \<Rightarrow> try_candidates drv rest)"

definition get_follow_state :: "'d driver \<Rightarrow> ('d, string) io" where
  "get_follow_state drv = try_candidates drv candidates"


subsection \<open>\<open>click_follow\<close> and \<open>click_unfollow\<close>\<close>

definition click_follow :: "'d driver \<Rightarrow> ('d, bool) io" where
  "click_follow drv =
     io_try
       (io_bind (wait_until drv 8 (element_to_be_clickable (XPATH, follow_xp))) (\<lambda>btn.
        io_bind (jitter_sleep drv 0.4 1.1) (\<lambda>_.
        io_bind (el_click drv btn) (\<lambda>_.
        io_bind (jitter_sleep drv 1.0 1.8) (\<lambda>_.
        io_return True)))))
       (\<lambda>e. io_return False)"

definition confirm_xps :: "string list" where
  "confirm_xps =
     [''//button[normalize-space()='Unfollow']'',
      ''//div[@role='dialog']//button[normalize-space()='Unfollow']'']"

text \<open>The loop over \<open>confirm_xps\<close>: \<open>True\<close> at the first confirmation clicked, \<open>False\<close>
  when every candidate failed.\<close>

primrec confirm_unfollow :: "'d driver \<Rightarrow> string list \<Rightarrow> ('d, bool) io" where
  "confirm_unfollow drv [] = io_return False"
| "confirm_unfollow drv (cxp # rest) =
     io_bind
       (io_try
          (io_bind (wait_until drv 5 (element_to_be_clickable (XPATH, cxp))) (\<lambda>cbtn.
           io_bind (jitter_sleep drv 0.2 0.6) (\<lambda>_.
           io_bind (el_click drv cbtn) (\<lambda>_.
           io_bind (jitter_sleep drv 0.8 1.5) (\<lambda>_.
           io_return True)))))
          (\<lambda>e. io_return False))
       (\<lambda>clicked. if clicked then io_return True else confirm_unfollow drv rest)"

definition click_unfollow :: "'d driver \<Rightarrow> ('d, bool) io" where
  "click_unfollow drv =
     io_try
       (io_bind (wait_until drv 8 (element_to_be_clickable (XPATH, following_xp))) (\<lambda>btn.
        io_bind (jitter_sleep drv 0.4 1.1) (\<lambda>_.
        io_bind (el_click drv btn) (\<lambda>_.
        io_bind (jitter_sleep drv 0.6 1.2) (\<lambda>_.
        confirm_unfollow drv confirm_xps)))))
       (\<lambda>e. io_return False)"


section \<open>The processing loop\<close>

text \<open>
  The dictionary \<open>rec\<close> of \<open>process_user\<close>, with \<open>None\<close> of HOL for Python's \<open>None\<close>.
  The action log is the list of the records appended to it; \<open>write_jsonl\<close> appends one.
  Failures of the file system are not part of the model.
\<close>

record action_record =
  r_username :: string
  r_mode :: string
  r_ts :: int
  r_action :: "string option"
  r_success :: bool
  r_state_before :: "string option"
  r_state_after :: "string option"
  r_error :: "string option"

definition write_jsonl :: "action_record list \<Rightarrow> action_record \<Rightarrow> action_record list" where
  "write_jsonl alog rec = alog @ [rec]"

text \<open>
  A call made inside the \<open>try\<close> of \<open>process_user\<close>, with the record as it stands at the
  call: when the call raises, \<open>except Exception as e\<close> stores \<open>repr(e)\<close> in that record
  and the \<open>try\<close> is over; otherwise the rest of the body runs on the value.
\<close>

definition within_try ::
  "action_record \<Rightarrow> ('d, 'a) io \<Rightarrow> ('a \<Rightarrow> 'd \<Rightarrow> action_record \<times> 'd) \<Rightarrow> 'd
     \<Rightarrow> action_record \<times> 'd" where
  "within_try rec m rest d =
     (case m d of
        (Inl e, d') \<Rightarrow> (rec\<lparr>r_error := Some (repr e)\<rparr>, d')
      | (Inr x, d') \<Rightarrow> rest x d')"

text \<open>\<open>whitelist and username in whitelist\<close>, for the \<open>Optional[set]\<close> of the source.\<close>

definition whitelisted :: "string set option \<Rightarrow> string \<Rightarrow> bool" where
  "whitelisted whitelist username =
     (case whitelist of None \<Rightarrow> False | Some wl \<Rightarrow> wl \<noteq> {} \<and> username \<in> wl)"

definition process_user ::
  "'d driver \<Rightarrow> string \<Rightarrow> string \<Rightarrow> action_record list \<Rightarrow> string set option \<Rightarrow> 'd
     \<Rightarrow> action_record \<times> action_record list \<times> 'd" where
  "process_user drv username mode alog whitelist d =
     (let rec = \<lparr>r_username = username, r_mode = mode, r_ts = time_now drv d,
                 r_action = None, r_success = False, r_state_before = None,
                 r_state_after = None, r_error = None\<rparr>
      in
      if whitelisted whitelist username \<and> mode = ''unfollow'' then
        (let rec = rec\<lparr>r_action := Some ''skip_whitelisted'', r_success := True\<rparr>
         in (rec, write_jsonl alog rec, d))
      else
        (let (rec, d) =
           within_try rec (open_profile drv username) (\<lambda>_.
           within_try rec (get_follow_state drv) (\<lambda>state.
             let rec = rec\<lparr>r_state_before := Some state\<rparr> in
             if mode = ''follow'' then
               if state = ''follow'' then
                 within_try rec (click_follow drv) (\<lambda>ok.
                 within_try rec (get_follow_state drv) (\<lambda>state_after d.
                   (rec\<lparr>r_state_after := Some state_after,
                        r_action := Some (if ok then ''follow'' else ''noop_follow_click_failed''),
                        r_success := (ok \<and> state_after \<in> {''following'', ''requested''})\<rparr>, d)))
               else if state \<in> {''following'', ''requested''} then
                 (\<lambda>d. (rec\<lparr>r_action := Some ''noop_already_following'', r_success := True\<rparr>, d))
               else
                 (\<lambda>d. (rec\<lparr>r_action := Some ''noop_unavailable'', r_success := False\<rparr>, d))
             else if mode = ''unfollow'' then
               if state = ''following'' then
                 within_try rec (click_unfollow drv) (\<lambda>ok.
                 within_try rec (get_follow_state drv) (\<lambda>state_after d.
                   (rec\<lparr>r_state_after := Some state_after,
                        r_action := Some (if ok then ''unfollow'' else ''noop_unfollow_click_failed''),
                        r_success := (ok \<and> state_after \<in> {''follow'', ''unavailable''})\<rparr>, d)))
               else if state \<in> {''follow'', ''requested''} then
                 (\<lambda>d. (rec\<lparr>r_action := Some ''noop_not_following'', r_success := True\<rparr>, d))
               else
                 (\<lambda>d. (rec\<lparr>r_action := Some ''noop_unavailable'', r_success := False\<rparr>, d))
             else
               (\<lambda>d. (rec\<lparr>r_error := Some (''unknown_mode:'' @ mode)\<rparr>, d)))) d
         in (rec, write_jsonl alog rec, d)))"


subsection \<open>The loop of \<open>main\<close>\<close>

text \<open>The command-line arguments the loop reads.\<close>

record args =
  a_mode :: string
  a_max_actions :: int
  a_min_wait :: rat
  a_max_wait :: rat
  a_username :: string
  a_password :: string

text \<open>What one processed user adds to \<open>actions_done\<close>.\<close>

definition counted :: "action_record \<Rightarrow> int" where
  "counted rec =
     (if r_action rec \<notin> {Some ''noop_already_following'', Some ''noop_not_following''}
      then 1 else 0)"

text \<open>
  \<open>for u in usernames\<close>, from the usernames still to visit, the counter, the log and the
  state of the browser; it returns the counter, the log and the state at the end.
\<close>

fun run_loop ::
  "'d driver \<Rightarrow> args \<Rightarrow> string set option \<Rightarrow> string list \<Rightarrow> int \<Rightarrow> action_record list \<Rightarrow> 'd
     \<Rightarrow> int \<times> action_record list \<times> 'd" where
  "run_loop drv a whitelist [] actions_done alog d = (actions_done, alog, d)"
| "run_loop drv a whitelist (u # rest) actions_done alog d =
     (if actions_done \<ge> a_max_actions a then (actions_done, alog, d)
      else
        case process_user drv u (a_mode a) alog whitelist d of
          (rec, alog', d') \<Rightarrow>
            run_loop drv a whitelist rest (actions_done + counted rec) alog'
              (snd (jitter_sleep drv (a_min_wait a) (a_max_wait a) d')))"

text \<open>
  The body of the \<open>try\<close> of \<open>main\<close>, once the usernames and the whitelist are resolved:
  log in, run the loop, print the summary. The result is the number the summary line
  prints after \<open>Processed=\<close>, or the exception that ended the run.
\<close>

definition main_run ::
  "'d driver \<Rightarrow> args \<Rightarrow> string set option \<Rightarrow> string list \<Rightarrow> action_record list \<Rightarrow> 'd
     \<Rightarrow> (exn + int) \<times> action_record list \<times> 'd" where
  "main_run drv a whitelist usernames alog d =
     (case ig_login drv (a_username a) (a_password a) d of
        (Inl e, d') \<Rightarrow> (Inl e, alog, d')
      | (Inr _, d') \<Rightarrow>
          (case run_loop drv a whitelist usernames 0 alog d' of
             (actions_done, alog', d'') \<Rightarrow>
               (Inr (min (a_max_actions a) (int (length usernames))), alog', d'')))"


section \<open>The state machine of the specification\<close>

text \<open>
  The table of section 4.4 of the specification, from the mode, the state before, whether
  the click succeeded and the state probed after it, to the action tag and the success
  value. The last row of each mode is the state \<open>unavailable\<close>.
\<close>

definition table_4_4 :: "string \<Rightarrow> string \<Rightarrow> bool \<Rightarrow> string \<Rightarrow> string \<times> bool" where
  "table_4_4 mode state_before click_ok state_after =
     (if mode = ''follow'' then
        if state_before = ''follow'' then
          (''follow'', click_ok \<and> state_after \<in> {''following'', ''requested''})
        else if state_before \<in> {''following'', ''requested''} then
          (''noop_already_following'', True)
        else (''noop_unavailable'', False)
      else
        if state_before = ''following'' then
          (''unfollow'', click_ok \<and> state_after \<in> {''follow'', ''unavailable''})
        else if state_before \<in> {''follow'', ''requested''} then
          (''noop_not_following'', True)
        else (''noop_unavailable'', False))"

text \<open>The same table with the tags the code writes when the click failed.\<close>

definition table_4_4_amended :: "string \<Rightarrow> string \<Rightarrow> bool \<Rightarrow> string \<Rightarrow> string \<times> bool" where
  "table_4_4_amended mode state_before click_ok state_after =
     (if mode = ''follow'' \<and> state_before = ''follow'' \<and> \<not> click_ok then
        (''noop_follow_click_failed'', False)
      else if mode = ''unfollow'' \<and> state_before = ''following'' \<and> \<not> click_ok then
        (''noop_unfollow_click_failed'', False)
      else table_4_4 mode state_before click_ok state_after)"


section \<open>A mock browser\<close>

text \<open>
  A small simulated site for the examples. The session is logged in or not; it follows a
  list of accounts; one profile may be open, with a single call-to-action button (element
  0) that reads \<open>Following\<close> for a followed account and \<open>Follow\<close> otherwise. Clicking
  \<open>Follow\<close> follows the account; clicking \<open>Following\<close> opens a dialog whose
  \<open>Unfollow\<close> button (element 1) unfollows it. On a frozen site no button ever becomes
  clickable; on a stale one reading an element raises. Every call of the driver is
  counted, and the clock advances by one with each sleep.
\<close>

record site =
  s_url :: string
  s_logged_in :: bool
  s_following :: "string list"
  s_profile :: string
  s_dialog :: bool
  s_frozen :: bool
  s_stale :: bool
  s_calls :: nat
  s_clock :: int

definition site_label :: "site \<Rightarrow> string" where
  "site_label s = (if s_profile s \<in> set (s_following s) then ''Following'' else ''Follow'')"

definition at_login_form :: "site \<Rightarrow> bool" where
  "at_login_form s = (s_url s = login_url \<and> \<not> s_logged_in s)"

definition site_find :: "site \<Rightarrow> locator \<Rightarrow> element list" where
  "site_find s loc =
     (if loc = (NAME, ''username'') then (if at_login_form s then [10] else [])
      else if loc = (NAME, ''password'') then (if at_login_form s then [11] else [])
      else if loc = (CSS_SELECTOR, ''button[type='submit']'') then
        (if at_login_form s then [12] else [])
      else if loc = (XPATH, ''//header//h2 | //header//h1'') then
        (if s_profile s \<noteq> [] then [20] else [])
      else if loc \<in> {(XPATH, follow_xp), (XPATH, any_cta_xp)}
              \<and> s_profile s \<noteq> [] \<and> site_label s = ''Follow'' then [0]
      else if loc \<in> {(XPATH, following_xp), (XPATH, any_cta_xp)}
              \<and> s_profile s \<noteq> [] \<and> site_label s = ''Following'' then [0]
      else if loc \<in> (\<lambda>xp. (XPATH, xp)) ` set confirm_xps \<and> s_dialog s then [1]
      else [])"

definition called :: "site \<Rightarrow> site" where
  "called s = s\<lparr>s_calls := s_calls s + 1\<rparr>"

definition site_get :: "string \<Rightarrow> (site, unit) io" where
  "site_get url s =
     (Inr (),
      called (if url = login_url then
                s\<lparr>s_url := (if s_logged_in s then ''https://www.instagram.com/'' else url),
                  s_profile := [], s_dialog := False\<rparr>
              else
                s\<lparr>s_url := url, s_profile := butlast (drop 26 url), s_dialog := False\<rparr>))"

definition site_wait :: "nat \<Rightarrow> condition \<Rightarrow> (site, element) io" where
  "site_wait timeout cond s =
     (case cond of
        presence_of_element_located loc \<Rightarrow>
          (case site_find s loc of
             [] \<Rightarrow> (Inl TimeoutException, called s)
           | e # _ \<Rightarrow> (Inr e, called s))
      | element_to_be_clickable loc \<Rightarrow>
          (case site_find s loc of
             [] \<Rightarrow> (Inl TimeoutException, called s)
           | e # _ \<Rightarrow>
               if s_frozen s then (Inl TimeoutException, called s) else (Inr e, called s)))"

definition site_find_element :: "locator \<Rightarrow> (site, element) io" where
  "site_find_element loc s =
     (case site_find s loc of
        [] \<Rightarrow> (Inl NoSuchElementException, called s)
      | e # _ \<Rightarrow> (Inr e, called s))"

definition site_click :: "element \<Rightarrow> (site, unit) io" where
  "site_click e s =
     (Inr (),
      called (if e = 0 then
                (if site_label s = ''Follow''
                 then s\<lparr>s_following := s_profile s # s_following s\<rparr>
                 else s\<lparr>s_dialog := True\<rparr>)
              else if e = 1 then
                s\<lparr>s_following := removeAll (s_profile s) (s_following s), s_dialog := False\<rparr>
              else if e = 12 then
                s\<lparr>s_logged_in := True, s_url := ''https://www.instagram.com/''\<rparr>
              else s))"

definition site_read :: "'a \<Rightarrow> (site, 'a) io" where
  "site_read x s =
     (if s_stale s then (Inl (WebDriverException ''stale element reference''), called s)
      else (Inr x, called s))"

definition mock_driver :: "site driver" where
  "mock_driver =
     \<lparr>drv_get = site_get,
      drv_current_url = (\<lambda>s. (Inr (s_url s), called s)),
      drv_find_element = site_find_element,
      drv_find_elements = (\<lambda>loc s. (Inr (site_find s loc), called s)),
      wait_until = site_wait,
      el_click = site_click,
      el_clear = (\<lambda>e s. (Inr (), called s)),
      el_send_keys = (\<lambda>e keys s. (Inr (), called s)),
      el_is_displayed = (\<lambda>e s. site_read True s),
      el_text = (\<lambda>e s. site_read (if e = 0 then site_label s else []) s),
      time_sleep = (\<lambda>lo hi s. s\<lparr>s_clock := s_clock s + 1\<rparr>),
      time_now = s_clock\<rparr>"

text \<open>
  A fresh browser that still has to log in, and a session that follows \<open>alice\<close>, with or
  without a session kept from an earlier run.
\<close>

definition fresh_site :: "string list \<Rightarrow> site" where
  "fresh_site following =
     \<lparr>s_url = [], s_logged_in = False, s_following = following, s_profile = [],
      s_dialog = False, s_frozen = False, s_stale = False, s_calls = 0, s_clock = 1700000000\<rparr>"

definition example_args :: "string \<Rightarrow> int \<Rightarrow> args" where
  "example_args mode max_actions =
     \<lparr>a_mode = mode, a_max_actions = max_actions, a_min_wait = 6, a_max_wait = 12,
      a_username = ''me'', a_password = ''secret''\<rparr>"

definition on_profile :: "site \<Rightarrow> string \<Rightarrow> site" where
  "on_profile s u = s\<lparr>s_url := ''https://www.instagram.com/'' @ u @ ''/'', s_profile := u\<rparr>"

text \<open>A browser whose window was closed: every call raises.\<close>

definition no_window :: exn where
  "no_window = WebDriverException ''no such window''"

definition closed_browser :: "unit driver" where
  "closed_browser =
     \<lparr>drv_get = (\<lambda>url d. (Inl no_window, d)),
      drv_current_url = (\<lambda>d. (Inl no_window, d)),
      drv_find_element = (\<lambda>loc d. (Inl no_window, d)),
      drv_find_elements = (\<lambda>loc d. (Inl no_window, d)),
      wait_until = (\<lambda>timeout cond d. (Inl no_window, d)),
      el_click = (\<lambda>e d. (Inl no_window, d)),
      el_clear = (\<lambda>e d. (Inl no_window, d)),
      el_send_keys = (\<lambda>e keys d. (Inl no_window, d)),
      el_is_displayed = (\<lambda>e d. (Inl no_window, d)),
      el_text = (\<lambda>e d. (Inl no_window, d)),
      time_sleep = (\<lambda>lo hi d. d),
      time_now = (\<lambda>d. 0)\<rparr>"

text \<open>A browser that kept the session of an earlier run: it is logged in already.\<close>

definition kept_session :: site where
  "kept_session = (fresh_site [''alice''])\<lparr>s_logged_in := True\<rparr>"


section \<open>The prober of the specification\<close>

text \<open>
  A rendered page, as far as the prober can see it: for each XPath the buttons found,
  and for each button whether it is displayed and its text. Each of the three readings
  may fail.
\<close>

record page =
  pg_found :: "string \<Rightarrow> exn + element list"
  pg_shown :: "element \<Rightarrow> exn + bool"
  pg_text :: "element \<Rightarrow> exn + string"

text \<open>
  A driver renders the page \<open>pg\<close> in the states that satisfy \<open>I\<close> when, in each of
  them, the three readings give what the page says and lead to such a state again.
\<close>

definition renders :: "'d driver \<Rightarrow> ('d \<Rightarrow> bool) \<Rightarrow> page \<Rightarrow> bool" where
  "renders drv I pg =
     (\<forall>d. I d \<longrightarrow>
        (\<forall>xp. \<exists>d'. drv_find_elements drv (XPATH, xp) d = (pg_found pg xp, d') \<and> I d')
        \<and> (\<forall>b. \<exists>d'. el_is_displayed drv b d = (pg_shown pg b, d') \<and> I d')
        \<and> (\<forall>b. \<exists>d'. el_text drv b d = (pg_text pg b, d') \<and> I d'))"

text \<open>
  Section 4.1 of the specification. The text of a button is matched, ignoring case and
  surrounding white space, against the literals \<open>Follow\<close>, \<open>Following\<close> and
  \<open>Requested\<close>.
\<close>

definition recognise :: "string \<Rightarrow> string option" where
  "recognise text =
     (if py_lower (py_strip text) = py_lower ''Follow'' then Some ''follow''
      else if py_lower (py_strip text) = py_lower ''Following'' then Some ''following''
      else if py_lower (py_strip text) = py_lower ''Requested'' then Some ''requested''
      else None)"

text \<open>
  Among several matches the first one visibly rendered is preferred, and the first
  match is taken when none is. The buttons are asked in order, so a button whose
  visibility cannot be read, met before a displayed one, makes the strategy fail
  (\<open>None\<close>).
\<close>

definition preferred :: "page \<Rightarrow> element list \<Rightarrow> element option" where
  "preferred pg btns =
     (case find (\<lambda>b. pg_shown pg b \<noteq> Inr False) btns of
        None \<Rightarrow> Some (hd btns)
      | Some b \<Rightarrow> if pg_shown pg b = Inr True then Some b else None)"

text \<open>
  The label one strategy yields: that of the preferred button among the matches, when
  there is a match, nothing fails and the text is recognised.
\<close>

definition strategy_label :: "page \<Rightarrow> string \<Rightarrow> string option" where
  "strategy_label pg xp =
     (case pg_found pg xp of
        Inl e \<Rightarrow> None
      | Inr btns \<Rightarrow>
          if btns = [] then None
          else
            (case preferred pg btns of
               None \<Rightarrow> None
             | Some b \<Rightarrow> (case pg_text pg b of Inl e \<Rightarrow> None | Inr text \<Rightarrow> recognise text)))"

text \<open>
  The state of the page: the label of the first strategy, in the order of the
  candidates, that yields one, and \<open>unavailable\<close> when none does.
\<close>

definition spec_probe :: "page \<Rightarrow> string" where
  "spec_probe pg =
     (case List.map_filter (strategy_label pg) candidates of
        [] \<Rightarrow> ''unavailable''
      | state # _ \<Rightarrow> state)"

text \<open>
  A driver that shows one fixed page and counts the calls made. The page is given by
  the matches of each XPath, by the buttons with their visibility and text, and by the
  stale buttons, whose visibility and text cannot be read.
\<close>

definition page_driver :: "page \<Rightarrow> nat driver" where
  "page_driver pg =
     \<lparr>drv_get = (\<lambda>url n. (Inr (), n + 1)),
      drv_current_url = (\<lambda>n. (Inr [], n + 1)),
      drv_find_element = (\<lambda>loc n. (Inl NoSuchElementException, n + 1)),
      drv_find_elements = (\<lambda>loc n. (pg_found pg (snd loc), n + 1)),
      wait_until = (\<lambda>timeout cond n. (Inl TimeoutException, n + 1)),
      el_click = (\<lambda>e n. (Inr (), n + 1)),
      el_clear = (\<lambda>e n. (Inr (), n + 1)),
      el_send_keys = (\<lambda>e keys n. (Inr (), n + 1)),
      el_is_displayed = (\<lambda>e n. (pg_shown pg e, n + 1)),
      el_text = (\<lambda>e n. (pg_text pg e, n + 1)),
      time_sleep = (\<lambda>lo hi n. n),
      time_now = (\<lambda>n. 0)\<rparr>"

definition table_page ::
  "(string \<times> element list) list \<Rightarrow> (element \<times> bool \<times> string) list \<Rightarrow> element list \<Rightarrow> page" where
  "table_page found buttons stale =
     \<lparr>pg_found = (\<lambda>xp. Inr (case map_of found xp of Some btns \<Rightarrow> btns | None \<Rightarrow> [])),
      pg_shown = (\<lambda>b. if b \<in> set stale then Inl (WebDriverException ''stale element reference'')
                       else Inr (case map_of buttons b of Some (shown, text) \<Rightarrow> shown
                                 | None \<Rightarrow> False)),
      pg_text = (\<lambda>b. if b \<in> set stale then Inl (WebDriverException ''stale element reference'')
                      else Inr (case map_of buttons b of Some (shown, text) \<Rightarrow> text
                                | None \<Rightarrow> []))\<rparr>"

text \<open>
  Four pages. On the first, two buttons match: a hidden one, whose text reads as empty,
  and after it the displayed button \<open>Following\<close>. On the second, the button the first
  strategy finds has gone stale, and the last strategy finds the button rendered anew,
  which reads \<open>FOLLOW\<close>. On the third, the only match is a button that is not
  displayed and reads \<open>Requested\<close>. The fourth has no button at all.
\<close>

definition hidden_first_page :: page where
  "hidden_first_page =
     table_page [(following_xp, [5, 6]), (any_cta_xp, [5, 6])]
       [(5, False, []), (6, True, ''Following'')] []"

definition stale_page :: page where
  "stale_page =
     table_page [(follow_xp, [3]), (any_cta_xp, [4])] [(4, True, ''FOLLOW'')] [3]"

definition requested_page :: page where
  "requested_page =
     table_page [(requested_xp, [8]), (any_cta_xp, [8])] [(8, False, ''Requested'')] []"

definition blank_page :: page where
  "blank_page = table_page [] [] []"


section \<open>Properties of the input resolver\<close>

lemma remdups_snoc:
  "remdups (xs @ [x]) = filter (\<lambda>y. y \<noteq> x) (remdups xs) @ [x]"
  by (induction xs) auto

lemma first_occurrence_Cons:
  "rev (remdups (rev (x # xs))) = x # filter (\<lambda>y. y \<noteq> x) (rev (remdups (rev xs)))"
  by (simp add: remdups_snoc rev_filter)

lemma dedup_loop_acc:
  "dedup_loop out (set acc) acc =
     acc @ filter (\<lambda>u. u \<notin> set acc) (rev (remdups (rev (filter (\<lambda>u. u \<noteq> []) out))))"
proof (induction out arbitrary: acc)
  case Nil
  show ?case by simp
next
  case (Cons u out)
  let ?F = "rev (remdups (rev (filter (\<lambda>u. u \<noteq> []) out)))"
  have unfold: "rev (remdups (rev (filter (\<lambda>u. u \<noteq> []) (u # out))))
      = u # filter (\<lambda>y. y \<noteq> u) ?F" if "u \<noteq> []"
    using that first_occurrence_Cons [of u "filter (\<lambda>u. u \<noteq> []) out"] by simp
  show ?case
  proof (cases "u \<noteq> [] \<and> u \<notin> set acc")
    case True
    have "dedup_loop (u # out) (set acc) acc = dedup_loop out (set (acc @ [u])) (acc @ [u])"
      using True by simp
    also have "\<dots> = (acc @ [u]) @ filter (\<lambda>v. v \<notin> set (acc @ [u])) ?F"
      by (rule Cons.IH)
    also have "\<dots> = acc @ filter (\<lambda>v. v \<notin> set acc)
        (rev (remdups (rev (filter (\<lambda>u. u \<noteq> []) (u # out)))))"
      unfolding unfold [OF conjunct1 [OF True]] using True by (simp add: conj_commute)
    finally show ?thesis .
  next
    case False
    have step: "dedup_loop (u # out) (set acc) acc = dedup_loop out (set acc) acc"
      using False by auto
    show ?thesis
    proof (cases "u = []")
      case True
      then show ?thesis using step Cons.IH [of acc] by simp
    next
      case nonempty: False
      with False have "u \<in> set acc" by simp
      then have "filter (\<lambda>v. v \<notin> set acc) (filter (\<lambda>y. y \<noteq> u) ?F)
          = filter (\<lambda>v. v \<notin> set acc) ?F"
        by (auto intro: filter_cong)
      then show ?thesis
        unfolding unfold [OF nonempty] using step Cons.IH [of acc] \<open>u \<in> set acc\<close>
        by simp
    qed
  qed
qed

lemma dedup_loop_first_occurrence:
  "dedup_loop out {} [] = rev (remdups (rev (filter (\<lambda>u. u \<noteq> []) out)))"
  using dedup_loop_acc [of out "[]"] by simp

lemma txt_entries_eq:
  "filter (\<lambda>u. u \<noteq> []) (txt_entries ls) = filter (\<lambda>u. u \<noteq> []) (map normalise ls)"
  by (induction ls) (auto simp: normalise_def Let_def py_lstrip_def)

lemma csv_entries_eq:
  "csv_entries rows = map (\<lambda>row. normalise (hd row)) (filter (\<lambda>row. row \<noteq> []) rows)"
  by (induction rows) (auto simp: normalise_def split: list.splits)

lemma last_dropWhile_keep: "dropWhile P xs \<noteq> [] \<Longrightarrow> last (dropWhile P xs) = last xs"
  by (induction xs) (auto split: if_splits)

lemma normalise_shape:
  assumes "normalise s \<noteq> []"
  shows "hd (normalise s) \<noteq> CHR ''@''" and "\<not> is_space (last (normalise s))"
proof -
  show "hd (normalise s) \<noteq> CHR ''@''"
    using assms hd_dropWhile [of "\<lambda>c. c \<in> set ''@''" "py_strip s"]
    by (simp add: normalise_def py_lstrip_def)
  have ne: "py_strip s \<noteq> []"
    using assms by (auto simp: normalise_def py_lstrip_def)
  have "last (normalise s) = last (py_strip s)"
    using assms unfolding normalise_def py_lstrip_def by (rule last_dropWhile_keep)
  also have "\<dots> = hd (dropWhile is_space (rev (dropWhile is_space s)))"
    using ne by (simp add: py_strip_def last_rev)
  finally show "\<not> is_space (last (normalise s))"
    using ne hd_dropWhile [of is_space "rev (dropWhile is_space s)"]
    by (simp add: py_strip_def)
qed

text \<open>
  C3 (as amended). Whenever \<open>read_usernames\<close> returns, the list has no duplicates and no
  blank entry, no entry starts with \<open>@\<close> or ends in white space, and the list is the
  normalised entries of the file (trimmed, then every leading \<open>@\<close> removed) without the
  blank ones, each kept at its first occurrence. A missing file gives the empty list; the
  entries are the lines of a text file and the first cells of the non-empty rows of a
  delimited file.
\<close>

theorem read_usernames_normalised:
  "read_usernames csv_reader p = Inr us \<Longrightarrow>
     distinct us \<and> [] \<notin> set us \<and>
     (\<forall>u \<in> set us. hd u \<noteq> CHR ''@'' \<and> \<not> is_space (last u)) \<and>
     (\<not> p_exists p \<longrightarrow> us = []) \<and>
     (p_exists p \<and> py_lower (p_suffix p) \<notin> {''.csv'', ''.tsv''} \<longrightarrow>
        us = rev (remdups (rev (filter (\<lambda>u. u \<noteq> []) (map normalise (p_lines p)))))) \<and>
     (p_exists p \<and> py_lower (p_suffix p) \<in> {''.csv'', ''.tsv''} \<longrightarrow>
        (\<exists>rows. csv_reader (p_lines p) = Inr rows \<and>
           us = rev (remdups (rev (filter (\<lambda>u. u \<noteq> [])
                  (map (\<lambda>row. normalise (hd row)) (filter (\<lambda>row. row \<noteq> []) rows)))))))"
proof -
  assume r: "read_usernames csv_reader p = Inr us"
  have t_eq: "dedup_loop (txt_entries ls) {} []
      = rev (remdups (rev (filter (\<lambda>u. u \<noteq> []) (map normalise ls))))" for ls
    by (simp only: dedup_loop_first_occurrence txt_entries_eq)
  have c_eq: "dedup_loop (csv_entries rows) {} []
      = rev (remdups (rev (filter (\<lambda>u. u \<noteq> [])
            (map (\<lambda>row. normalise (hd row)) (filter (\<lambda>row. row \<noteq> []) rows)))))" for rows
    by (simp only: dedup_loop_first_occurrence csv_entries_eq)
  obtain es where us: "us = rev (remdups (rev (filter (\<lambda>u. u \<noteq> []) (map normalise es))))"
  proof (cases "p_exists p")
    case False
    with r have "us = []" by (simp add: read_usernames_def)
    then have "us = rev (remdups (rev (filter (\<lambda>u. u \<noteq> []) (map normalise []))))" by simp
    then show ?thesis by (rule that)
  next
    case True
    show ?thesis
    proof (cases "py_lower (p_suffix p) \<in> {''.csv'', ''.tsv''}")
      case False
      with True r have "us = dedup_loop (txt_entries (p_lines p)) {} []"
        by (simp add: read_usernames_def)
      then show ?thesis using that [of "p_lines p"] by (simp only: t_eq)
    next
      case suffix: True
      with True r obtain rows where "us = dedup_loop (csv_entries rows) {} []"
        by (auto simp: read_usernames_def split: sum.splits)
      then have "us = rev (remdups (rev (filter (\<lambda>u. u \<noteq> [])
            (map normalise (map hd (filter (\<lambda>row. row \<noteq> []) rows))))))"
        by (simp only: c_eq map_map o_def)
      then show ?thesis by (rule that)
    qed
  qed
  have d: "distinct us" and n: "[] \<notin> set us"
    by (simp_all add: us)
  have shape: "\<forall>u \<in> set us. hd u \<noteq> CHR ''@'' \<and> \<not> is_space (last u)"
    using normalise_shape by (auto simp: us)
  have a: "\<not> p_exists p \<longrightarrow> us = []"
    using r by (auto simp: read_usernames_def)
  have b: "p_exists p \<and> py_lower (p_suffix p) \<notin> {''.csv'', ''.tsv''} \<longrightarrow>
        us = rev (remdups (rev (filter (\<lambda>u. u \<noteq> []) (map normalise (p_lines p)))))"
    using r t_eq by (auto simp: read_usernames_def)
  have c: "p_exists p \<and> py_lower (p_suffix p) \<in> {''.csv'', ''.tsv''} \<longrightarrow>
        (\<exists>rows. csv_reader (p_lines p) = Inr rows \<and>
           us = rev (remdups (rev (filter (\<lambda>u. u \<noteq> [])
                  (map (\<lambda>row. normalise (hd row)) (filter (\<lambda>row. row \<noteq> []) rows))))))"
    using r c_eq by (auto simp: read_usernames_def split: sum.splits)
  from d n shape a b c show ?thesis by blast
qed

text \<open>
  The example of the specification: the lines \<open>@alice\<close>, \<open>bob\<close>, \<open>alice\<close>, a blank
  line and \<open>carol\<close> give \<open>alice\<close>, \<open>bob\<close>, \<open>carol\<close>.
\<close>

theorem read_usernames_normalised_witness:
  "read_usernames no_csv example_list = Inr [''alice'', ''bob'', ''carol''] \<and>
   distinct [''alice'', ''bob'', ''carol''] \<and>
   [''alice'', ''bob'', ''carol'']
     = rev (remdups (rev (filter (\<lambda>u. u \<noteq> []) (map normalise (p_lines example_list)))))"
proof -
  have run: "read_usernames no_csv example_list = Inr [''alice'', ''bob'', ''carol'']"
    by (simp add: read_usernames_def example_list_def py_lower_def lower_char_def
        py_strip_def py_lstrip_def is_space_def)
  have kind: "p_exists example_list \<and> py_lower (p_suffix example_list) \<notin> {''.csv'', ''.tsv''}"
    by (simp add: example_list_def py_lower_def lower_char_def)
  from read_usernames_normalised [OF run] kind run show ?thesis by blast
qed

text \<open>
  C3 as stated fails: of the two leading \<open>@\<close> of the line \<open>@@alice\<close> the code removes
  both, where removing at most one leaves \<open>@alice\<close>.
\<close>

theorem read_usernames_strips_every_at:
  "read_usernames no_csv double_at_list = Inr [''alice''] \<and>
   map spec_normalise (p_lines double_at_list) = [''@alice'']"
  by (simp add: read_usernames_def double_at_list_def py_lower_def lower_char_def
      py_strip_def py_lstrip_def is_space_def spec_normalise_def)

section \<open>Properties of the action log reader\<close>

text \<open>
  C10. A limit of zero, like no limit, gives the whole deduplicated list: the result is
  that of \<open>limit = None\<close>, and it is the list of all keys whenever the read of the log
  returns.
\<close>

theorem load_last_followed_limit_zero:
  "load_last_followed json_loads log_path (Some 0) = load_last_followed json_loads log_path None
   \<and> (\<forall>content followed.
        log_path = Some content \<and> read_log json_loads content = Inr followed
        \<longrightarrow> load_last_followed json_loads log_path (Some 0) = fromkeys followed [])"
  by (simp add: load_last_followed_def split: option.splits sum.splits)

theorem load_last_followed_limit_zero_witness:
  "read_log example_loads refollow_log = Inr [JStr ''alice'', JStr ''bob'', JStr ''alice'']
   \<and> load_last_followed example_loads (Some refollow_log) (Some 0)
       = Inr [JStr ''alice'', JStr ''bob'']
   \<and> load_last_followed example_loads (Some refollow_log) None
       = Inr [JStr ''alice'', JStr ''bob'']"
proof -
  have scan: "read_log example_loads refollow_log
      = Inr [JStr ''alice'', JStr ''bob'', JStr ''alice'']"
    by code_simp
  have keys: "fromkeys [JStr ''alice'', JStr ''bob'', JStr ''alice''] []
      = Inr [JStr ''alice'', JStr ''bob'']"
    by code_simp
  from load_last_followed_limit_zero [of example_loads "Some refollow_log"] scan
  have "load_last_followed example_loads (Some refollow_log) (Some 0)
          = load_last_followed example_loads (Some refollow_log) None"
    and "load_last_followed example_loads (Some refollow_log) (Some 0)
          = fromkeys [JStr ''alice'', JStr ''bob'', JStr ''alice''] []"
    by blast+
  with scan keys show ?thesis by (simp only: simp_thms)
qed

text \<open>
  C4 at the failing input: \<open>alice\<close> is followed, then \<open>bob\<close>, then \<open>alice\<close> again. The
  code keeps \<open>alice\<close> at her first occurrence, so that \<open>bob\<close> comes last and is the one
  "most recent" entry; keeping the last occurrence, as stated, puts \<open>alice\<close> last.
\<close>

theorem load_last_followed_keeps_first_occurrence:
  "load_last_followed example_loads (Some refollow_log) None = Inr [JStr ''alice'', JStr ''bob'']
   \<and> load_last_followed example_loads (Some refollow_log) (Some 1) = Inr [JStr ''bob'']
   \<and> spec_last_followed [''alice'', ''bob'', ''alice''] None = [''bob'', ''alice'']
   \<and> spec_last_followed [''alice'', ''bob'', ''alice''] (Some 1) = [''alice'']"
proof (intro conjI)
  show "load_last_followed example_loads (Some refollow_log) None
      = Inr [JStr ''alice'', JStr ''bob'']"
    by code_simp
  show "load_last_followed example_loads (Some refollow_log) (Some 1) = Inr [JStr ''bob'']"
    by code_simp
  show "spec_last_followed [''alice'', ''bob'', ''alice''] None = [''bob'', ''alice'']"
    by (simp add: spec_last_followed_def)
  show "spec_last_followed [''alice'', ''bob'', ''alice''] (Some 1) = [''alice'']"
    by (simp add: spec_last_followed_def)
qed

text \<open>
  C6 at the failing input. A record cut short inside its ASCII text joins the next record
  into one line that is not valid JSON, and that line is skipped: the read of \<open>cut_log\<close>
  returns \<open>alice\<close>. The same cut one byte later, between the two bytes of a letter,
  leaves a log that is not valid UTF-8: the read of \<open>torn_log\<close> raises
  \<open>UnicodeDecodeError\<close>, where skipping the malformed line gives \<open>alice\<close> again. A
  line that is valid JSON but no record aborts the read as well, with
  \<open>AttributeError\<close>.
\<close>

theorem load_last_followed_aborts_on_malformed_line:
  "read_lines [] cut_log = [follow_line ''alice'', cut_record @ follow_line ''bob'']
   \<and> example_loads (cut_record @ follow_line ''bob'') = Inl JSONDecodeError
   \<and> load_last_followed example_loads (Some cut_log) None = Inr [JStr ''alice'']
   \<and> utf8_valid torn_log = False
   \<and> load_last_followed example_loads (Some torn_log) None = Inl UnicodeDecodeError
   \<and> read_lines [] number_log = [follow_line ''alice'', ''123'' @ [CHR 0x0A]]
   \<and> load_last_followed example_loads (Some number_log) None = Inl AttributeError"
proof (intro conjI)
  show "read_lines [] cut_log = [follow_line ''alice'', cut_record @ follow_line ''bob'']"
    by code_simp
  show "example_loads (cut_record @ follow_line ''bob'') = Inl JSONDecodeError"
    by code_simp
  show "load_last_followed example_loads (Some cut_log) None = Inr [JStr ''alice'']"
    by code_simp
  show "utf8_valid torn_log = False"
    by code_simp
  show "load_last_followed example_loads (Some torn_log) None = Inl UnicodeDecodeError"
    by code_simp
  show "read_lines [] number_log = [follow_line ''alice'', ''123'' @ [CHR 0x0A]]"
    by code_simp
  show "load_last_followed example_loads (Some number_log) None = Inl AttributeError"
    by code_simp
qed

section \<open>Properties of the prober\<close>

lemma strategy_body_labels:
  "strategy_body drv xp d = (Inr (Some s), d') \<Longrightarrow> s \<in> {''follow'', ''following'', ''requested''}"
  by (auto simp: strategy_body_def io_bind_def io_return_def Let_def
      split: prod.splits sum.splits if_splits)

lemma probe_candidate_cases:
  obtains (failed) e d' where "strategy_body drv xp d = (Inl e, d')"
      "probe_candidate drv xp d = (Inr None, d')"
    | (passed) r d' where "strategy_body drv xp d = (Inr r, d')"
      "probe_candidate drv xp d = (Inr r, d')"
proof (cases "strategy_body drv xp d")
  case (Pair r d')
  show ?thesis
  proof (cases r)
    case (Inl e)
    with Pair show ?thesis
      by (intro failed [of e d']) (simp_all add: probe_candidate_def io_try_def io_return_def)
  next
    case (Inr x)
    with Pair show ?thesis
      by (intro passed [of x d']) (simp_all add: probe_candidate_def io_try_def)
  qed
qed

lemma try_candidates_skip:
  "probe_candidate drv xp d = (Inr None, d') \<Longrightarrow>
     try_candidates drv (xp # rest) d = try_candidates drv rest d'"
  by (simp add: io_bind_def)

lemma try_candidates_hit:
  "probe_candidate drv xp d = (Inr (Some s), d') \<Longrightarrow>
     try_candidates drv (xp # rest) d = (Inr s, d')"
  by (simp add: io_bind_def io_return_def)

lemma try_candidates_returns:
  "\<exists>s d'. try_candidates drv xps d = (Inr s, d')
     \<and> s \<in> {''follow'', ''following'', ''requested'', ''unavailable''}"
proof (induction xps arbitrary: d)
  case Nil
  show ?case by (simp add: io_return_def)
next
  case (Cons xp rest)
  show ?case
  proof (cases rule: probe_candidate_cases [of drv xp d])
    case (failed e d')
    with Cons.IH [of d'] show ?thesis by (simp only: try_candidates_skip)
  next
    case (passed r d')
    show ?thesis
    proof (cases r)
      case None
      with passed Cons.IH [of d'] show ?thesis by (simp only: try_candidates_skip)
    next
      case (Some s)
      with passed have "try_candidates drv (xp # rest) d = (Inr s, d')"
        by (simp only: try_candidates_hit)
      moreover from Some passed have "s \<in> {''follow'', ''following'', ''requested''}"
        by (simp only: strategy_body_labels)
      ultimately show ?thesis by blast
    qed
  qed
qed

lemma rendersD:
  assumes "renders drv I pg" and "I d"
  obtains d1 where "drv_find_elements drv (XPATH, xp) d = (pg_found pg xp, d1)" "I d1"
  using assms unfolding renders_def by blast

lemma renders_shown:
  assumes "renders drv I pg" and "I d"
  obtains d1 where "el_is_displayed drv b d = (pg_shown pg b, d1)" "I d1"
  using assms unfolding renders_def by blast

lemma renders_text:
  assumes "renders drv I pg" and "I d"
  obtains d1 where "el_text drv b d = (pg_text pg b, d1)" "I d1"
  using assms unfolding renders_def by blast

lemma first_displayed_renders:
  assumes "renders drv I pg" and "I d"
  shows "\<exists>d'. I d' \<and> first_displayed drv btns d
     = ((case find (\<lambda>b. pg_shown pg b \<noteq> Inr False) btns of
           None \<Rightarrow> Inr None
         | Some b \<Rightarrow> (case pg_shown pg b of Inl e \<Rightarrow> Inl e | Inr v \<Rightarrow> Inr (Some b))), d')"
  using assms(2)
proof (induction btns arbitrary: d)
  case Nil
  then show ?case by (auto simp: io_return_def)
next
  case (Cons b bs)
  from renders_shown [OF assms(1) Cons.prems, of b] obtain d1
    where read: "el_is_displayed drv b d = (pg_shown pg b, d1)" and "I d1"
    by blast
  show ?case
  proof (cases "pg_shown pg b")
    case (Inl e)
    with read \<open>I d1\<close> show ?thesis
      by (auto simp: io_bind_def)
  next
    case (Inr v)
    show ?thesis
    proof (cases v)
      case True
      with Inr read \<open>I d1\<close> show ?thesis
        by (auto simp: io_bind_def io_return_def)
    next
      case False
      with Inr read Cons.IH [OF \<open>I d1\<close>] show ?thesis
        by (auto simp: io_bind_def)
    qed
  qed
qed

lemma choose_button_renders:
  assumes "renders drv I pg" and "I d" and "btns \<noteq> []"
  shows "\<exists>r d'. I d' \<and> choose_button drv btns d = (r, d')
     \<and> (case preferred pg btns of None \<Rightarrow> \<exists>e. r = Inl e | Some b \<Rightarrow> r = Inr b)"
proof -
  from first_displayed_renders [OF assms(1,2), of btns] obtain d'
    where "I d'" and run: "first_displayed drv btns d
     = ((case find (\<lambda>b. pg_shown pg b \<noteq> Inr False) btns of
           None \<Rightarrow> Inr None
         | Some b \<Rightarrow> (case pg_shown pg b of Inl e \<Rightarrow> Inl e | Inr v \<Rightarrow> Inr (Some b))), d')"
    by blast
  show ?thesis
  proof (cases "find (\<lambda>b. pg_shown pg b \<noteq> Inr False) btns")
    case None
    with run \<open>I d'\<close> show ?thesis
      by (auto simp: choose_button_def io_bind_def io_return_def preferred_def)
  next
    case (Some b)
    then have "pg_shown pg b \<noteq> Inr False"
      by (auto simp: find_Some_iff)
    with Some run \<open>I d'\<close> show ?thesis
      by (cases "pg_shown pg b")
        (auto simp: choose_button_def io_bind_def io_return_def preferred_def)
  qed
qed

lemma lower_literals:
  "py_lower ''Follow'' = ''follow''" "py_lower ''Following'' = ''following''"
  "py_lower ''Requested'' = ''requested''"
  by code_simp+

lemma probe_candidate_renders:
  assumes "renders drv I pg" and "I d"
  shows "\<exists>d'. I d' \<and> probe_candidate drv xp d = (Inr (strategy_label pg xp), d')"
proof -
  from rendersD [OF assms, of xp] obtain d1
    where found: "drv_find_elements drv (XPATH, xp) d = (pg_found pg xp, d1)" and "I d1"
    by blast
  show ?thesis
  proof (cases "pg_found pg xp")
    case (Inl e)
    with found \<open>I d1\<close> show ?thesis
      by (auto simp: probe_candidate_def strategy_body_def strategy_label_def
          io_try_def io_bind_def io_return_def)
  next
    case (Inr btns)
    show ?thesis
    proof (cases "btns = []")
      case True
      with Inr found \<open>I d1\<close> show ?thesis
        by (auto simp: probe_candidate_def strategy_body_def strategy_label_def
            io_try_def io_bind_def io_return_def)
    next
      case False
      from choose_button_renders [OF assms(1) \<open>I d1\<close> False] obtain r d2
        where "I d2" and chosen: "choose_button drv btns d1 = (r, d2)"
          and which: "case preferred pg btns of None \<Rightarrow> \<exists>e. r = Inl e | Some b \<Rightarrow> r = Inr b"
        by blast
      show ?thesis
      proof (cases "preferred pg btns")
        case None
        with Inr False found chosen which \<open>I d2\<close> show ?thesis
          by (auto simp: probe_candidate_def strategy_body_def strategy_label_def
              io_try_def io_bind_def io_return_def)
      next
        case (Some b)
        from renders_text [OF assms(1) \<open>I d2\<close>, of b] obtain d3
          where label_read: "el_text drv b d2 = (pg_text pg b, d3)" and "I d3"
          by blast
        show ?thesis
        proof (cases "pg_text pg b")
          case (Inl e)
          with Some Inr False found chosen which label_read \<open>I d3\<close> show ?thesis
            by (auto simp: probe_candidate_def strategy_body_def strategy_label_def
                io_try_def io_bind_def io_return_def)
        next
          case text_read: (Inr t)
          with Some Inr False found chosen which label_read \<open>I d3\<close> show ?thesis
            by (auto simp: probe_candidate_def strategy_body_def strategy_label_def
                io_try_def io_bind_def io_return_def recognise_def lower_literals Let_def)
        qed
      qed
    qed
  qed
qed

lemma try_candidates_renders:
  assumes "renders drv I pg" and "I d"
  shows "\<exists>d'. I d' \<and> try_candidates drv xps d
     = (Inr (case List.map_filter (strategy_label pg) xps of
               [] \<Rightarrow> ''unavailable''
             | state # _ \<Rightarrow> state), d')"
  using assms(2)
proof (induction xps arbitrary: d)
  case Nil
  then show ?case by (auto simp: io_return_def)
next
  case (Cons xp rest)
  from probe_candidate_renders [OF assms(1) Cons.prems, of xp] obtain d1
    where "I d1" and probe: "probe_candidate drv xp d = (Inr (strategy_label pg xp), d1)"
    by blast
  show ?case
  proof (cases "strategy_label pg xp")
    case None
    with probe have "try_candidates drv (xp # rest) d = try_candidates drv rest d1"
      by (simp only: try_candidates_skip)
    with None Cons.IH [OF \<open>I d1\<close>] show ?thesis
      by simp
  next
    case (Some s)
    with probe have "try_candidates drv (xp # rest) d = (Inr s, d1)"
      by (simp only: try_candidates_hit)
    with Some \<open>I d1\<close> show ?thesis
      by auto
  qed
qed

lemma spec_probe_unavailable:
  "(\<forall>xp \<in> set candidates. strategy_label pg xp = None) \<Longrightarrow> spec_probe pg = ''unavailable''"
proof -
  have "(\<forall>xp \<in> set xps. strategy_label pg xp = None)
      \<Longrightarrow> List.map_filter (strategy_label pg) xps = []" for xps
    by (induction xps) simp_all
  then show "(\<forall>xp \<in> set candidates. strategy_label pg xp = None)
      \<Longrightarrow> spec_probe pg = ''unavailable''"
    by (simp add: spec_probe_def)
qed

text \<open>
  C7. For every driver and every state of the browser the prober returns, never raises,
  and what it returns is one of the four states. A failure inside one strategy is
  swallowed, and the prober goes on with the remaining strategies from the state
  reached. On a rendered page the prober is the prober of the specification: each
  strategy yields the label recognised in the text of the preferred button among its
  matches, the first displayed one or else the first, and nothing when it finds no
  button, fails or reads another text; the state returned is the label of the first
  strategy that yields one, and \<open>unavailable\<close> when no strategy yields a label on that
  page.
\<close>

theorem get_follow_state_total:
  "(\<exists>s d'. get_follow_state drv d = (Inr s, d')
       \<and> s \<in> {''follow'', ''following'', ''requested'', ''unavailable''})
   \<and> (\<forall>xp rest e d'. strategy_body drv xp d = (Inl e, d')
        \<longrightarrow> try_candidates drv (xp # rest) d = try_candidates drv rest d')
   \<and> (\<forall>I pg. renders drv I pg \<and> I d \<longrightarrow>
        (\<forall>xp. \<exists>d'. probe_candidate drv xp d = (Inr (strategy_label pg xp), d') \<and> I d')
        \<and> (\<exists>d'. get_follow_state drv d = (Inr (spec_probe pg), d') \<and> I d')
        \<and> ((\<forall>xp \<in> set candidates. strategy_label pg xp = None)
             \<longrightarrow> (\<exists>d'. get_follow_state drv d = (Inr ''unavailable'', d'))))"
proof (intro conjI allI impI)
  show "\<exists>s d'. get_follow_state drv d = (Inr s, d')
       \<and> s \<in> {''follow'', ''following'', ''requested'', ''unavailable''}"
    unfolding get_follow_state_def by (rule try_candidates_returns)
next
  fix xp rest e d'
  assume "strategy_body drv xp d = (Inl e, d')"
  then have "probe_candidate drv xp d = (Inr None, d')"
    by (simp add: probe_candidate_def io_try_def io_return_def)
  then show "try_candidates drv (xp # rest) d = try_candidates drv rest d'"
    by (rule try_candidates_skip)
next
  fix I :: "'a \<Rightarrow> bool" and pg xp
  assume "renders drv I pg \<and> I d"
  then show "\<exists>d'. probe_candidate drv xp d = (Inr (strategy_label pg xp), d') \<and> I d'"
    using probe_candidate_renders [of drv I pg d xp] by blast
next
  fix I :: "'a \<Rightarrow> bool" and pg
  assume "renders drv I pg \<and> I d"
  then show "\<exists>d'. get_follow_state drv d = (Inr (spec_probe pg), d') \<and> I d'"
    using try_candidates_renders [of drv I pg d candidates]
    unfolding get_follow_state_def spec_probe_def by blast
next
  fix I :: "'a \<Rightarrow> bool" and pg
  assume page: "renders drv I pg \<and> I d"
    and none: "\<forall>xp \<in> set candidates. strategy_label pg xp = None"
  from page have "\<exists>d'. I d' \<and> get_follow_state drv d = (Inr (spec_probe pg), d')"
    using try_candidates_renders [of drv I pg d candidates]
    unfolding get_follow_state_def spec_probe_def by blast
  with spec_probe_unavailable [OF none]
  show "\<exists>d'. get_follow_state drv d = (Inr ''unavailable'', d')"
    by auto
qed

text \<open>
  On the four pages. The hidden button is passed over for the displayed one: the state
  is \<open>following\<close>, as the specification's prober says. The stale button makes the first
  strategy fail, and the prober goes on to find \<open>follow\<close>. The button that is not
  displayed is taken when it is the only match. The page without a button, like a closed
  browser, where every call fails, probes as \<open>unavailable\<close>.
\<close>

theorem get_follow_state_total_witness:
  "renders (page_driver hidden_first_page) (\<lambda>n. True) hidden_first_page
   \<and> preferred hidden_first_page [5, 6] = Some 6
   \<and> spec_probe hidden_first_page = ''following''
   \<and> (\<exists>n. get_follow_state (page_driver hidden_first_page) 0
              = (Inr (spec_probe hidden_first_page), n))
   \<and> get_follow_state (page_driver hidden_first_page) 0 = (Inr ''following'', 5)
   \<and> strategy_body (page_driver stale_page) follow_xp 0
       = (Inl (WebDriverException ''stale element reference''), 2)
   \<and> try_candidates (page_driver stale_page)
         [follow_xp, following_xp, requested_xp, any_cta_xp] 0
       = try_candidates (page_driver stale_page) [following_xp, requested_xp, any_cta_xp] 2
   \<and> get_follow_state (page_driver stale_page) 0 = (Inr ''follow'', 7)
   \<and> preferred requested_page [8] = Some 8
   \<and> get_follow_state (page_driver requested_page) 0 = (Inr ''requested'', 5)
   \<and> renders (page_driver blank_page) (\<lambda>n. True) blank_page
   \<and> strategy_label blank_page follow_xp = None
   \<and> strategy_label blank_page following_xp = None
   \<and> strategy_label blank_page requested_xp = None
   \<and> strategy_label blank_page any_cta_xp = None
   \<and> get_follow_state (page_driver blank_page) 0 = (Inr ''unavailable'', 4)
   \<and> get_follow_state closed_browser () = (Inr ''unavailable'', ())"
proof -
  have page: "renders (page_driver pg) (\<lambda>n. True) pg" for pg
    by (simp add: renders_def page_driver_def)
  have pick: "preferred hidden_first_page [5, 6] = Some 6"
    by code_simp
  have spec: "spec_probe hidden_first_page = ''following''"
    by code_simp
  from get_follow_state_total [of "page_driver hidden_first_page" 0] page
  have refined: "\<exists>n. get_follow_state (page_driver hidden_first_page) 0
      = (Inr (spec_probe hidden_first_page), n)"
    by blast
  have hidden: "get_follow_state (page_driver hidden_first_page) 0 = (Inr ''following'', 5)"
    by code_simp
  have stale: "strategy_body (page_driver stale_page) follow_xp 0
       = (Inl (WebDriverException ''stale element reference''), 2)"
    by code_simp
  with get_follow_state_total [of "page_driver stale_page" 0]
  have next_one: "try_candidates (page_driver stale_page)
         [follow_xp, following_xp, requested_xp, any_cta_xp] 0
       = try_candidates (page_driver stale_page) [following_xp, requested_xp, any_cta_xp] 2"
    by blast
  have anew: "get_follow_state (page_driver stale_page) 0 = (Inr ''follow'', 7)"
    by code_simp
  have only: "preferred requested_page [8] = Some 8"
    by code_simp
  have requested: "get_follow_state (page_driver requested_page) 0 = (Inr ''requested'', 5)"
    by code_simp
  have labels: "strategy_label blank_page follow_xp = None"
    "strategy_label blank_page following_xp = None"
    "strategy_label blank_page requested_xp = None"
    "strategy_label blank_page any_cta_xp = None"
    by code_simp+
  have blank: "get_follow_state (page_driver blank_page) 0 = (Inr ''unavailable'', 4)"
    by code_simp
  have closed: "get_follow_state closed_browser () = (Inr ''unavailable'', ())"
    by code_simp
  from page [of hidden_first_page] page [of blank_page] pick spec refined hidden stale
    next_one anew only requested labels blank closed
  show ?thesis by (simp only: simp_thms)
qed

section \<open>Properties of \<open>process_user\<close>\<close>

text \<open>
  C8. In unfollow mode a whitelisted username is recorded as \<open>skip_whitelisted\<close> with
  success, whatever the state of the browser, and the browser is not touched: the state
  is returned as it was, and the result is the same for every driver with the same clock.
\<close>

theorem process_user_whitelisted:
  "username \<in> wl \<Longrightarrow>
     process_user drv username ''unfollow'' alog (Some wl) d
       = (\<lparr>r_username = username, r_mode = ''unfollow'', r_ts = time_now drv d,
            r_action = Some ''skip_whitelisted'', r_success = True, r_state_before = None,
            r_state_after = None, r_error = None\<rparr>,
          alog @ [\<lparr>r_username = username, r_mode = ''unfollow'', r_ts = time_now drv d,
            r_action = Some ''skip_whitelisted'', r_success = True, r_state_before = None,
            r_state_after = None, r_error = None\<rparr>],
          d)
     \<and> (\<forall>drv'. time_now drv' d = time_now drv d \<longrightarrow>
            process_user drv' username ''unfollow'' alog (Some wl) d
              = process_user drv username ''unfollow'' alog (Some wl) d)"
proof -
  assume "username \<in> wl"
  then have w: "whitelisted (Some wl) username"
    by (auto simp: whitelisted_def)
  have run: "process_user drv' username ''unfollow'' alog (Some wl) d
       = (\<lparr>r_username = username, r_mode = ''unfollow'', r_ts = time_now drv' d,
            r_action = Some ''skip_whitelisted'', r_success = True, r_state_before = None,
            r_state_after = None, r_error = None\<rparr>,
          alog @ [\<lparr>r_username = username, r_mode = ''unfollow'', r_ts = time_now drv' d,
            r_action = Some ''skip_whitelisted'', r_success = True, r_state_before = None,
            r_state_after = None, r_error = None\<rparr>],
          d)" for drv' :: "'a driver"
    using w by (simp add: process_user_def write_jsonl_def Let_def)
  show ?thesis
    by (simp add: run)
qed

text \<open>
  On the mock: \<open>alice\<close> is followed and whitelisted; no call of the driver is counted.
\<close>

theorem process_user_whitelisted_witness:
  "''alice'' \<in> {''alice'', ''carol''}
   \<and> process_user mock_driver ''alice'' ''unfollow'' [] (Some {''alice'', ''carol''})
        (fresh_site [''alice''])
      = (\<lparr>r_username = ''alice'', r_mode = ''unfollow'', r_ts = 1700000000,
           r_action = Some ''skip_whitelisted'', r_success = True, r_state_before = None,
           r_state_after = None, r_error = None\<rparr>,
         [\<lparr>r_username = ''alice'', r_mode = ''unfollow'', r_ts = 1700000000,
           r_action = Some ''skip_whitelisted'', r_success = True, r_state_before = None,
           r_state_after = None, r_error = None\<rparr>],
         fresh_site [''alice''])
   \<and> s_calls (fresh_site [''alice'']) = 0"
proof -
  have member: "''alice'' \<in> {''alice'', ''carol''}"
    by simp
  have clock: "time_now mock_driver (fresh_site [''alice'']) = 1700000000"
    by (simp add: mock_driver_def fresh_site_def)
  have calls: "s_calls (fresh_site [''alice'']) = 0"
    by (simp add: fresh_site_def)
  from process_user_whitelisted [OF member, of mock_driver "[]" "fresh_site [''alice'']"]
    member clock calls
  show ?thesis by simp
qed

text \<open>
  C1 (as amended). After the profile opened and the prober returned \<open>state\<close>, which is
  one of the four states, the record of \<open>process_user\<close> carries the tag and the success
  value of the table of section 4.4, with the click's own tags when the click failed:
  where a click is made, \<open>ok\<close> is what it returned and \<open>state_after\<close> what the prober
  returned after it; where none is made, the row does not depend on them and no state
  after is recorded. The record goes to the log in every case.
\<close>

theorem process_user_state_machine:
  assumes "mode = ''follow'' \<or> mode = ''unfollow''"
    and "\<not> (whitelisted whitelist username \<and> mode = ''unfollow'')"
    and "open_profile drv username d = (Inr (), d1)"
    and "get_follow_state drv d1 = (Inr state, d2)"
  shows "state \<in> {''follow'', ''following'', ''requested'', ''unavailable''}
    \<and> (mode = ''follow'' \<and> state = ''follow'' \<longrightarrow>
         (\<forall>ok d3 state_after d4.
            click_follow drv d2 = (Inr ok, d3) \<and> get_follow_state drv d3 = (Inr state_after, d4)
            \<longrightarrow> (case process_user drv username mode alog whitelist d of
                   (rec, alog', d') \<Rightarrow>
                     r_action rec = Some (fst (table_4_4_amended mode state ok state_after))
                     \<and> r_success rec = snd (table_4_4_amended mode state ok state_after)
                     \<and> r_state_before rec = Some state \<and> r_state_after rec = Some state_after
                     \<and> r_error rec = None \<and> alog' = alog @ [rec] \<and> d' = d4)))
    \<and> (mode = ''unfollow'' \<and> state = ''following'' \<longrightarrow>
         (\<forall>ok d3 state_after d4.
            click_unfollow drv d2 = (Inr ok, d3) \<and> get_follow_state drv d3 = (Inr state_after, d4)
            \<longrightarrow> (case process_user drv username mode alog whitelist d of
                   (rec, alog', d') \<Rightarrow>
                     r_action rec = Some (fst (table_4_4_amended mode state ok state_after))
                     \<and> r_success rec = snd (table_4_4_amended mode state ok state_after)
                     \<and> r_state_before rec = Some state \<and> r_state_after rec = Some state_after
                     \<and> r_error rec = None \<and> alog' = alog @ [rec] \<and> d' = d4)))
    \<and> (\<not> (mode = ''follow'' \<and> state = ''follow'')
         \<and> \<not> (mode = ''unfollow'' \<and> state = ''following'') \<longrightarrow>
         (\<forall>ok state_after.
            (case process_user drv username mode alog whitelist d of
               (rec, alog', d') \<Rightarrow>
                 r_action rec = Some (fst (table_4_4_amended mode state ok state_after))
                 \<and> r_success rec = snd (table_4_4_amended mode state ok state_after)
                 \<and> r_state_before rec = Some state \<and> r_state_after rec = None
                 \<and> r_error rec = None \<and> alog' = alog @ [rec] \<and> d' = d2)))"
proof (intro conjI impI allI)
  show "state \<in> {''follow'', ''following'', ''requested'', ''unavailable''}"
    using try_candidates_returns [of drv candidates d1] assms(4)
    by (auto simp: get_follow_state_def)
next
  fix ok d3 state_after d4
  assume row: "mode = ''follow'' \<and> state = ''follow''"
    and "click_follow drv d2 = (Inr ok, d3) \<and> get_follow_state drv d3 = (Inr state_after, d4)"
  then show "case process_user drv username mode alog whitelist d of
      (rec, alog', d') \<Rightarrow>
        r_action rec = Some (fst (table_4_4_amended mode state ok state_after))
        \<and> r_success rec = snd (table_4_4_amended mode state ok state_after)
        \<and> r_state_before rec = Some state \<and> r_state_after rec = Some state_after
        \<and> r_error rec = None \<and> alog' = alog @ [rec] \<and> d' = d4"
    using assms(3,4)
    by (simp add: process_user_def within_try_def write_jsonl_def Let_def table_4_4_amended_def
        table_4_4_def)
next
  fix ok d3 state_after d4
  assume row: "mode = ''unfollow'' \<and> state = ''following''"
    and "click_unfollow drv d2 = (Inr ok, d3) \<and> get_follow_state drv d3 = (Inr state_after, d4)"
  then show "case process_user drv username mode alog whitelist d of
      (rec, alog', d') \<Rightarrow>
        r_action rec = Some (fst (table_4_4_amended mode state ok state_after))
        \<and> r_success rec = snd (table_4_4_amended mode state ok state_after)
        \<and> r_state_before rec = Some state \<and> r_state_after rec = Some state_after
        \<and> r_error rec = None \<and> alog' = alog @ [rec] \<and> d' = d4"
    using assms(2,3,4)
    by (simp add: process_user_def within_try_def write_jsonl_def Let_def table_4_4_amended_def
        table_4_4_def)
next
  fix ok state_after
  assume "\<not> (mode = ''follow'' \<and> state = ''follow'')
      \<and> \<not> (mode = ''unfollow'' \<and> state = ''following'')"
  then show "case process_user drv username mode alog whitelist d of
      (rec, alog', d') \<Rightarrow>
        r_action rec = Some (fst (table_4_4_amended mode state ok state_after))
        \<and> r_success rec = snd (table_4_4_amended mode state ok state_after)
        \<and> r_state_before rec = Some state \<and> r_state_after rec = None
        \<and> r_error rec = None \<and> alog' = alog @ [rec] \<and> d' = d2"
    using assms
    by (auto simp: process_user_def within_try_def write_jsonl_def Let_def table_4_4_amended_def
        table_4_4_def)
qed

text \<open>
  On the mock: \<open>bob\<close> is not followed; following him clicks the button, the prober then
  reads \<open>following\<close>, and the record is the row \<open>follow\<close> of the table with success.
\<close>

theorem process_user_state_machine_witness:
  "(''follow'' = ''follow'' \<or> ''follow'' = ''unfollow'')
   \<and> \<not> whitelisted None ''bob''
   \<and> open_profile mock_driver ''bob'' (fresh_site [''alice''])
       = (Inr (), (on_profile (fresh_site [''alice'']) ''bob'')
                    \<lparr>s_calls := 2, s_clock := 1700000001\<rparr>)
   \<and> get_follow_state mock_driver
         ((on_profile (fresh_site [''alice'']) ''bob'')\<lparr>s_calls := 2, s_clock := 1700000001\<rparr>)
       = (Inr ''follow'', (on_profile (fresh_site [''alice'']) ''bob'')
                    \<lparr>s_calls := 5, s_clock := 1700000001\<rparr>)
   \<and> click_follow mock_driver
         ((on_profile (fresh_site [''alice'']) ''bob'')\<lparr>s_calls := 5, s_clock := 1700000001\<rparr>)
       = (Inr True, (on_profile (fresh_site [''bob'', ''alice'']) ''bob'')
                    \<lparr>s_calls := 7, s_clock := 1700000003\<rparr>)
   \<and> get_follow_state mock_driver
         ((on_profile (fresh_site [''bob'', ''alice'']) ''bob'')
            \<lparr>s_calls := 7, s_clock := 1700000003\<rparr>)
       = (Inr ''following'', (on_profile (fresh_site [''bob'', ''alice'']) ''bob'')
                    \<lparr>s_calls := 11, s_clock := 1700000003\<rparr>)
   \<and> table_4_4_amended ''follow'' ''follow'' True ''following'' = (''follow'', True)
   \<and> (case process_user mock_driver ''bob'' ''follow'' [] None (fresh_site [''alice'']) of
         (rec, alog', d') \<Rightarrow>
           r_action rec = Some ''follow'' \<and> r_success rec = True
           \<and> r_state_before rec = Some ''follow'' \<and> r_state_after rec = Some ''following''
           \<and> r_error rec = None \<and> alog' = [] @ [rec]
           \<and> d' = (on_profile (fresh_site [''bob'', ''alice'']) ''bob'')
                    \<lparr>s_calls := 11, s_clock := 1700000003\<rparr>)"
proof -
  let ?s1 = "(on_profile (fresh_site [''alice'']) ''bob'')\<lparr>s_calls := 2, s_clock := 1700000001\<rparr>"
  let ?s2 = "(on_profile (fresh_site [''alice'']) ''bob'')\<lparr>s_calls := 5, s_clock := 1700000001\<rparr>"
  let ?s3 = "(on_profile (fresh_site [''bob'', ''alice'']) ''bob'')
      \<lparr>s_calls := 7, s_clock := 1700000003\<rparr>"
  let ?s4 = "(on_profile (fresh_site [''bob'', ''alice'']) ''bob'')
      \<lparr>s_calls := 11, s_clock := 1700000003\<rparr>"
  have mode: "''follow'' = ''follow'' \<or> ''follow'' = ''unfollow''"
    by simp
  have listed: "\<not> whitelisted None ''bob''"
    by (simp add: whitelisted_def)
  then have skip: "\<not> (whitelisted None ''bob'' \<and> ''follow'' = ''unfollow'')"
    by simp
  have opened: "open_profile mock_driver ''bob'' (fresh_site [''alice'']) = (Inr (), ?s1)"
    by code_simp
  have probed: "get_follow_state mock_driver ?s1 = (Inr ''follow'', ?s2)"
    by code_simp
  have clicked: "click_follow mock_driver ?s2 = (Inr True, ?s3)"
    by code_simp
  have after: "get_follow_state mock_driver ?s3 = (Inr ''following'', ?s4)"
    by code_simp
  have row: "table_4_4_amended ''follow'' ''follow'' True ''following'' = (''follow'', True)"
    by (simp add: table_4_4_amended_def table_4_4_def)
  note machine = process_user_state_machine [OF mode skip opened probed, of "[]"]
  from machine [THEN conjunct2, THEN conjunct1, rule_format, of True ?s3 "''following''" ?s4]
    clicked after
  have "case process_user mock_driver ''bob'' ''follow'' [] None (fresh_site [''alice'']) of
      (rec, alog', d') \<Rightarrow>
        r_action rec = Some (fst (table_4_4_amended ''follow'' ''follow'' True ''following''))
        \<and> r_success rec = snd (table_4_4_amended ''follow'' ''follow'' True ''following'')
        \<and> r_state_before rec = Some ''follow'' \<and> r_state_after rec = Some ''following''
        \<and> r_error rec = None \<and> alog' = [] @ [rec] \<and> d' = ?s4"
    by (simp only: simp_thms)
  then have "case process_user mock_driver ''bob'' ''follow'' [] None (fresh_site [''alice'']) of
      (rec, alog', d') \<Rightarrow>
        r_action rec = Some ''follow'' \<and> r_success rec = True
        \<and> r_state_before rec = Some ''follow'' \<and> r_state_after rec = Some ''following''
        \<and> r_error rec = None \<and> alog' = [] @ [rec] \<and> d' = ?s4"
    by (simp only: row fst_conv snd_conv)
  with mode listed opened probed clicked after row show ?thesis
    by (simp only: simp_thms)
qed

text \<open>
  C1 as stated fails: on a frozen page the state before is \<open>follow\<close> and the click fails;
  the table gives the tag \<open>follow\<close>, the code writes \<open>noop_follow_click_failed\<close>.
\<close>

theorem process_user_click_failed_tag:
  "table_4_4 ''follow'' ''follow'' False ''follow'' = (''follow'', False)
   \<and> process_user mock_driver ''bob'' ''follow'' [] None
        ((fresh_site [''alice''])\<lparr>s_frozen := True\<rparr>)
      = (\<lparr>r_username = ''bob'', r_mode = ''follow'', r_ts = 1700000000,
           r_action = Some ''noop_follow_click_failed'', r_success = False,
           r_state_before = Some ''follow'', r_state_after = Some ''follow'',
           r_error = None\<rparr>,
         [\<lparr>r_username = ''bob'', r_mode = ''follow'', r_ts = 1700000000,
           r_action = Some ''noop_follow_click_failed'', r_success = False,
           r_state_before = Some ''follow'', r_state_after = Some ''follow'',
           r_error = None\<rparr>],
         (on_profile (fresh_site [''alice'']) ''bob'')
           \<lparr>s_frozen := True, s_calls := 9, s_clock := 1700000001\<rparr>)"
proof (intro conjI)
  show "table_4_4 ''follow'' ''follow'' False ''follow'' = (''follow'', False)"
    by (simp add: table_4_4_def)
  show "process_user mock_driver ''bob'' ''follow'' [] None
        ((fresh_site [''alice''])\<lparr>s_frozen := True\<rparr>)
      = (\<lparr>r_username = ''bob'', r_mode = ''follow'', r_ts = 1700000000,
           r_action = Some ''noop_follow_click_failed'', r_success = False,
           r_state_before = Some ''follow'', r_state_after = Some ''follow'',
           r_error = None\<rparr>,
         [\<lparr>r_username = ''bob'', r_mode = ''follow'', r_ts = 1700000000,
           r_action = Some ''noop_follow_click_failed'', r_success = False,
           r_state_before = Some ''follow'', r_state_after = Some ''follow'',
           r_error = None\<rparr>],
         (on_profile (fresh_site [''alice'']) ''bob'')
           \<lparr>s_frozen := True, s_calls := 9, s_clock := 1700000001\<rparr>)"
    by code_simp
qed

section \<open>Properties of the loop of \<open>main\<close>\<close>

lemma within_try_username:
  assumes "r_username rec = u" and "\<And>x d'. r_username (fst (rest x d')) = u"
  shows "r_username (fst (within_try rec m rest d)) = u"
  using assms by (simp add: within_try_def split: prod.splits sum.splits)

lemma process_user_appends:
  "\<exists>rec d'. process_user drv u mode alog whitelist d = (rec, alog @ [rec], d')
     \<and> r_username rec = u"
proof (cases "whitelisted whitelist u \<and> mode = ''unfollow''")
  case True
  then show ?thesis
    by (simp add: process_user_def Let_def write_jsonl_def)
next
  case False
  let ?rec = "\<lparr>r_username = u, r_mode = mode, r_ts = time_now drv d,
      r_action = None, r_success = False, r_state_before = None,
      r_state_after = None, r_error = None\<rparr>"
  define body where "body = within_try ?rec (open_profile drv u) (\<lambda>_.
      within_try ?rec (get_follow_state drv) (\<lambda>state.
        let rec = ?rec\<lparr>r_state_before := Some state\<rparr> in
        if mode = ''follow'' then
          if state = ''follow'' then
            within_try rec (click_follow drv) (\<lambda>ok.
            within_try rec (get_follow_state drv) (\<lambda>state_after d.
              (rec\<lparr>r_state_after := Some state_after,
                   r_action := Some (if ok then ''follow'' else ''noop_follow_click_failed''),
                   r_success := (ok \<and> state_after \<in> {''following'', ''requested''})\<rparr>, d)))
          else if state \<in> {''following'', ''requested''} then
            (\<lambda>d. (rec\<lparr>r_action := Some ''noop_already_following'', r_success := True\<rparr>, d))
          else
            (\<lambda>d. (rec\<lparr>r_action := Some ''noop_unavailable'', r_success := False\<rparr>, d))
        else if mode = ''unfollow'' then
          if state = ''following'' then
            within_try rec (click_unfollow drv) (\<lambda>ok.
            within_try rec (get_follow_state drv) (\<lambda>state_after d.
              (rec\<lparr>r_state_after := Some state_after,
                   r_action := Some (if ok then ''unfollow'' else ''noop_unfollow_click_failed''),
                   r_success := (ok \<and> state_after \<in> {''follow'', ''unavailable''})\<rparr>, d)))
          else if state \<in> {''follow'', ''requested''} then
            (\<lambda>d. (rec\<lparr>r_action := Some ''noop_not_following'', r_success := True\<rparr>, d))
          else
            (\<lambda>d. (rec\<lparr>r_action := Some ''noop_unavailable'', r_success := False\<rparr>, d))
        else
          (\<lambda>d. (rec\<lparr>r_error := Some (''unknown_mode:'' @ mode)\<rparr>, d)))) d"
  have run: "process_user drv u mode alog whitelist d
      = (fst body, alog @ [fst body], snd body)"
    unfolding process_user_def body_def Let_def write_jsonl_def if_not_P [OF False]
    by (simp add: case_prod_beta)
  have "r_username (fst body) = u"
    unfolding body_def
    by (auto intro!: within_try_username simp: Let_def)
  with run show ?thesis by blast
qed

lemma counted_values:
  "counted rec = (if r_action rec = Some ''noop_already_following''
                     \<or> r_action rec = Some ''noop_not_following'' then 0 else 1)"
  by (simp add: counted_def)

text \<open>
  C2. The loop appends one record for each username it processes, in order, so that the
  new records \<open>recs\<close> are those of a prefix of the usernames. The counter grows by one
  for every record except those tagged \<open>noop_already_following\<close> or
  \<open>noop_not_following\<close>; a record tagged \<open>skip_whitelisted\<close> counts. A username is
  processed only while the counter is below the maximum, and the loop leaves usernames
  unprocessed only when the counter has reached the maximum.
\<close>

theorem run_loop_budget:
  "run_loop drv a whitelist usernames n alog d = (n', alog', d') \<Longrightarrow>
     (\<exists>recs. alog' = alog @ recs
        \<and> map r_username recs = take (length recs) usernames
        \<and> n' = n + sum_list (map counted recs)
        \<and> (\<forall>k < length recs. n + sum_list (map counted (take k recs)) < a_max_actions a)
        \<and> (length recs < length usernames \<longrightarrow> a_max_actions a \<le> n'))
     \<and> (\<forall>rec. counted rec = (if r_action rec = Some ''noop_already_following''
                                 \<or> r_action rec = Some ''noop_not_following'' then 0 else 1))
     \<and> (\<forall>rec. r_action rec = Some ''skip_whitelisted'' \<longrightarrow> counted rec = 1)"
proof (intro conjI)
  assume "run_loop drv a whitelist usernames n alog d = (n', alog', d')"
  then show "\<exists>recs. alog' = alog @ recs
        \<and> map r_username recs = take (length recs) usernames
        \<and> n' = n + sum_list (map counted recs)
        \<and> (\<forall>k < length recs. n + sum_list (map counted (take k recs)) < a_max_actions a)
        \<and> (length recs < length usernames \<longrightarrow> a_max_actions a \<le> n')"
  proof (induction usernames arbitrary: n alog d)
    case Nil
    then have "alog' = alog @ []" "n' = n" by simp_all
    then show ?case by (intro exI [of _ "[]"]) simp
  next
    case (Cons u rest)
    show ?case
    proof (cases "a_max_actions a \<le> n")
      case True
      with Cons.prems have "alog' = alog @ []" "n' = n" by simp_all
      with True show ?thesis by (intro exI [of _ "[]"]) simp
    next
      case False
      obtain rec d1 where
        user: "process_user drv u (a_mode a) alog whitelist d = (rec, alog @ [rec], d1)"
        and name: "r_username rec = u"
        using process_user_appends [of drv u "a_mode a" alog whitelist d] by blast
      let ?d2 = "snd (jitter_sleep drv (a_min_wait a) (a_max_wait a) d1)"
      from Cons.prems False user
      have "run_loop drv a whitelist rest (n + counted rec) (alog @ [rec]) ?d2 = (n', alog', d')"
        by simp
      from Cons.IH [OF this] obtain recs where
        recs: "alog' = (alog @ [rec]) @ recs"
          "map r_username recs = take (length recs) rest"
          "n' = n + counted rec + sum_list (map counted recs)"
          "\<forall>k < length recs.
             n + counted rec + sum_list (map counted (take k recs)) < a_max_actions a"
          "length recs < length rest \<longrightarrow> a_max_actions a \<le> n'"
        by blast
      have under: "\<forall>k < length (rec # recs).
          n + sum_list (map counted (take k (rec # recs))) < a_max_actions a"
      proof (intro allI impI)
        fix k
        assume "k < length (rec # recs)"
        then show "n + sum_list (map counted (take k (rec # recs))) < a_max_actions a"
          using recs(4) False by (cases k) (simp_all add: add.assoc)
      qed
      from recs name under show ?thesis
        by (intro exI [of _ "rec # recs"]) simp
    qed
  qed
next
  show "\<forall>rec. counted rec = (if r_action rec = Some ''noop_already_following''
                                 \<or> r_action rec = Some ''noop_not_following'' then 0 else 1)"
    by (simp add: counted_values)
next
  show "\<forall>rec. r_action rec = Some ''skip_whitelisted'' \<longrightarrow> counted rec = 1"
    by (simp add: counted_def)
qed

text \<open>
  The two runs of the specification with a maximum of one action, on the mock, where
  \<open>alice\<close> is followed already and \<open>bob\<close> is not. With \<open>alice\<close> first, her record is
  \<open>noop_already_following\<close> and \<open>bob\<close> is processed too; with \<open>bob\<close> first, he is
  followed and the run stops after him.
\<close>

theorem run_loop_budget_witness:
  "map r_action (fst (snd (run_loop mock_driver (example_args ''follow'' 1) None
       [''alice'', ''bob'', ''carol''] 0 [] (fresh_site [''alice'']))))
     = [Some ''noop_already_following'', Some ''follow'']
   \<and> map r_username (fst (snd (run_loop mock_driver (example_args ''follow'' 1) None
       [''alice'', ''bob'', ''carol''] 0 [] (fresh_site [''alice'']))))
     = [''alice'', ''bob'']
   \<and> fst (run_loop mock_driver (example_args ''follow'' 1) None
       [''alice'', ''bob'', ''carol''] 0 [] (fresh_site [''alice''])) = 1
   \<and> map r_action (fst (snd (run_loop mock_driver (example_args ''follow'' 1) None
       [''bob'', ''alice'', ''carol''] 0 [] (fresh_site [''alice'']))))
     = [Some ''follow'']
   \<and> map r_username (fst (snd (run_loop mock_driver (example_args ''follow'' 1) None
       [''bob'', ''alice'', ''carol''] 0 [] (fresh_site [''alice'']))))
     = [''bob'']
   \<and> (\<exists>recs. fst (snd (run_loop mock_driver (example_args ''follow'' 1) None
            [''alice'', ''bob'', ''carol''] 0 [] (fresh_site [''alice''])))
          = [] @ recs
        \<and> map r_username recs = take (length recs) [''alice'', ''bob'', ''carol'']
        \<and> fst (run_loop mock_driver (example_args ''follow'' 1) None
            [''alice'', ''bob'', ''carol''] 0 [] (fresh_site [''alice'']))
          = 0 + sum_list (map counted recs))"
proof -
  let ?run = "run_loop mock_driver (example_args ''follow'' 1) None
      [''alice'', ''bob'', ''carol''] 0 [] (fresh_site [''alice''])"
  have tags: "map r_action (fst (snd ?run)) = [Some ''noop_already_following'', Some ''follow'']"
    by code_simp
  have names: "map r_username (fst (snd ?run)) = [''alice'', ''bob'']"
    by code_simp
  have counter: "fst ?run = 1"
    by code_simp
  have tags': "map r_action (fst (snd (run_loop mock_driver (example_args ''follow'' 1) None
       [''bob'', ''alice'', ''carol''] 0 [] (fresh_site [''alice'']))))
     = [Some ''follow'']"
    by code_simp
  have names': "map r_username (fst (snd (run_loop mock_driver (example_args ''follow'' 1) None
       [''bob'', ''alice'', ''carol''] 0 [] (fresh_site [''alice'']))))
     = [''bob'']"
    by code_simp
  have "?run = (fst ?run, fst (snd ?run), snd (snd ?run))"
    by simp
  from run_loop_budget [OF this]
  have "\<exists>recs. fst (snd ?run) = [] @ recs
        \<and> map r_username recs = take (length recs) [''alice'', ''bob'', ''carol'']
        \<and> fst ?run = 0 + sum_list (map counted recs)"
    by blast
  with tags names counter tags' names' show ?thesis
    by (simp only: simp_thms)
qed


section \<open>Two defects\<close>

text \<open>
  C5 at the failing input: the browser kept the session of an earlier run, so the login
  page redirects and the username field never renders. The wait for its presence times
  out, and that is swallowed; the wait for it to be clickable, on the next line, times
  out as well, and \<open>ig_login\<close> raises.
\<close>

theorem ig_login_raises_without_username_field:
  "drv_get mock_driver login_url kept_session
     = (Inr (), kept_session\<lparr>s_url := ''https://www.instagram.com/'', s_calls := 1\<rparr>)
   \<and> wait_until mock_driver 30 (presence_of_element_located (NAME, ''username''))
         (kept_session\<lparr>s_url := ''https://www.instagram.com/'', s_calls := 1\<rparr>)
     = (Inl TimeoutException,
        kept_session\<lparr>s_url := ''https://www.instagram.com/'', s_calls := 2\<rparr>)
   \<and> ig_login mock_driver ''me'' ''secret'' kept_session
     = (Inl TimeoutException,
        kept_session\<lparr>s_url := ''https://www.instagram.com/'', s_calls := 3\<rparr>)"
proof (intro conjI)
  show "drv_get mock_driver login_url kept_session
     = (Inr (), kept_session\<lparr>s_url := ''https://www.instagram.com/'', s_calls := 1\<rparr>)"
    by code_simp
  show "wait_until mock_driver 30 (presence_of_element_located (NAME, ''username''))
         (kept_session\<lparr>s_url := ''https://www.instagram.com/'', s_calls := 1\<rparr>)
     = (Inl TimeoutException,
        kept_session\<lparr>s_url := ''https://www.instagram.com/'', s_calls := 2\<rparr>)"
    by code_simp
  show "ig_login mock_driver ''me'' ''secret'' kept_session
     = (Inl TimeoutException,
        kept_session\<lparr>s_url := ''https://www.instagram.com/'', s_calls := 3\<rparr>)"
    by code_simp
qed

text \<open>
  C9 at the failing input: a maximum of one action and three usernames, the first of
  them followed already. The run processes two usernames, \<open>alice\<close> and \<open>bob\<close>, and the
  summary line prints \<open>Processed=1\<close>.
\<close>

theorem main_run_summary_miscounts:
  "fst (main_run mock_driver (example_args ''follow'' 1) None
       [''alice'', ''bob'', ''carol''] [] (fresh_site [''alice''])) = Inr 1
   \<and> map r_username (fst (snd (main_run mock_driver (example_args ''follow'' 1) None
       [''alice'', ''bob'', ''carol''] [] (fresh_site [''alice'']))))
     = [''alice'', ''bob'']
   \<and> length (fst (snd (main_run mock_driver (example_args ''follow'' 1) None
       [''alice'', ''bob'', ''carol''] [] (fresh_site [''alice''])))) = 2"
  by code_simp

end
